theory Spec2Isabelle
  imports Complex_Main
begin

section \<open>Face mesh detection and drawing (tolvera/mp/face\_mesh.py)\<close>

text \<open>
  The class \<^verbatim>\<open>MPFaceMesh\<close> wraps an external landmark detector. \<^verbatim>\<open>detect\<close> reshapes
  the detector's result into two numpy arrays and copies them into a shared state store;
  \<^verbatim>\<open>draw\<close> is a kernel that walks the store and issues circle and line calls.

  Coordinates are Python and numpy floats. Their type is left open here: any type \<open>'a\<close>
  with \<open>0\<close>, \<open>1\<close>, \<open>-\<close> and \<open>*\<close>, of which nothing is assumed, so every theorem holds for
  whatever these operations do on floats. The conversion made when a value is stored
  into a \<^verbatim>\<open>float32\<close> array is the parameter \<open>f32\<close>, the conversion \<^verbatim>\<open>ti.cast(_, ti.i32)\<close> the
  parameter \<open>cast\<close>. Over the reals, \<open>np_float32\<close> below is that conversion to \<^verbatim>\<open>float32\<close>.
\<close>

subsection \<open>Data\<close>

datatype error = IndexError | AttributeError | OutOfBounds

type_synonym 'a vec3 = "'a \<times> 'a \<times> 'a"
type_synonym 'a vec2 = "'a \<times> 'a"
type_synonym rgba = "int \<times> int \<times> int \<times> int"

text \<open>One landmark of the detector's result: the fields \<^verbatim>\<open>lm.x\<close>, \<^verbatim>\<open>lm.y\<close>, \<^verbatim>\<open>lm.z\<close>.\<close>

record 'a landmark =
  lm_x :: 'a
  lm_y :: 'a
  lm_z :: 'a

text \<open>A face is the list \<^verbatim>\<open>face.landmark\<close>.\<close>

type_synonym 'a face = "'a landmark list"

text \<open>
  The dictionary \<^verbatim>\<open>face_mesh_np\<close> with its two keys, each an array indexed by face and
  landmark whose entries are the vectors of the last axis. The shared store
  \<^verbatim>\<open>ctx.s.face_mesh\<close> has the same two attributes over the same shape.
\<close>

record 'a nddict =
  pxnorm :: "'a vec3 list list"
  px :: "'a vec2 list list"

text \<open>\<^verbatim>\<open>FaceMeshConnection\<close>, a pair of landmark indices.\<close>

record face_mesh_connection =
  conn_a :: int
  conn_b :: int

text \<open>
  The module \<^verbatim>\<open>face_mesh_connections\<close> that defines the vendor's tables is not part of
  the sources at hand; the tables are parameters, each a sequence of index pairs.
\<close>

record vendor =
  FACEMESH_LIPS :: "(int \<times> int) list"
  FACEMESH_LEFT_EYE :: "(int \<times> int) list"
  FACEMESH_LEFT_IRIS :: "(int \<times> int) list"
  FACEMESH_LEFT_EYEBROW :: "(int \<times> int) list"
  FACEMESH_RIGHT_EYE :: "(int \<times> int) list"
  FACEMESH_RIGHT_EYEBROW :: "(int \<times> int) list"
  FACEMESH_RIGHT_IRIS :: "(int \<times> int) list"
  FACEMESH_FACE_OVAL :: "(int \<times> int) list"
  FACEMESH_NOSE :: "(int \<times> int) list"
  FACEMESH_CONTOURS :: "(int \<times> int) list"

text \<open>
  The keyword arguments of the constructor that the class itself reads. A key that is
  absent is \<open>None\<close>. The two confidence thresholds are only handed to the detector.
  \<^verbatim>\<open>max_faces\<close> is a size: with a negative number \<^verbatim>\<open>np.zeros\<close> raises and no instance
  exists.
\<close>

record kwargs =
  kw_static_mode :: "bool option"
  kw_max_faces :: "nat option"
  kw_refine_landmarks :: "bool option"
  kw_face_detect_rate :: "nat option"

record config =
  static_image_mode :: bool
  max_num_faces :: nat
  refine_landmarks :: bool

text \<open>The application context: frame width and height and the shared store.\<close>

record 'a tv_context =
  ctx_x :: 'a
  ctx_y :: 'a
  s_face_mesh :: "'a nddict"

text \<open>A call on the drawing surface.\<close>

datatype draw_call =
  Circle int int int rgba
| Line int int int int rgba

text \<open>
  Modelled from the spec: the periodic-invocation helper \<^verbatim>\<open>Updater\<close> of
  \<^verbatim>\<open>osc/update.py\<close>, which is not part of the sources at hand. The spec describes it as
  "call the wrapped function at most once every N invocations": a counter and the rate.
\<close>

record updater =
  count_rate :: nat
  counter :: nat

text \<open>
  The instance. Every field is an attribute assigned by \<^verbatim>\<open>__init__\<close>, but for two:
  \<open>results\<close> is assigned by \<^verbatim>\<open>detect\<close> and absent (\<open>None\<close>) before, and \<open>self_px\<close> is the
  attribute \<^verbatim>\<open>self.px\<close> that \<^verbatim>\<open>draw_lm\<close> and \<^verbatim>\<open>draw_conn\<close> read: \<open>None\<close> when the instance
  has no such attribute, otherwise the surface, as the list of calls made on it.
  \<open>face_mesh\<close> is the detector object, of an arbitrary type \<open>'m\<close>.
  \<open>detected\<close> is a 32-bit integer field; it holds \<open>0\<close>, \<open>-1\<close> or the length of a list.
\<close>

record ('a, 'm) mp_face_mesh =
  ctx :: "'a tv_context"
  n_conns :: nat
  n_points :: nat
  config :: config
  face_mesh :: 'm
  lips_conns :: "face_mesh_connection list"
  left_eye_conns :: "face_mesh_connection list"
  left_iris_conns :: "face_mesh_connection list"
  left_eyebrow_conns :: "face_mesh_connection list"
  right_eye_conns :: "face_mesh_connection list"
  right_eyebrow_conns :: "face_mesh_connection list"
  right_iris_conns :: "face_mesh_connection list"
  face_oval_conns :: "face_mesh_connection list"
  nose_conns :: "face_mesh_connection list"
  contours_conns :: "face_mesh_connection list"
  face_mesh_np :: "'a nddict"
  detected :: int
  upd :: updater
  results :: "'a face list option option"
  self_px :: "draw_call list option"

subsection \<open>Construction\<close>

text \<open>
  \<^verbatim>\<open>np.zeros((max_num_faces, n_points, k))\<close>: rows of zero vectors.
\<close>

definition np_zeros :: "nat \<Rightarrow> nat \<Rightarrow> 'v \<Rightarrow> 'v list list" where
  "np_zeros f n z = replicate f (replicate n z)"

text \<open>
  Modelled from the spec: the store that the context creates when \<^verbatim>\<open>__init__\<close> assigns the
  declaration of \<^verbatim>\<open>pxnorm\<close> and \<^verbatim>\<open>px\<close> over the shape \<^verbatim>\<open>(max_num_faces, n_points)\<close> to
  \<^verbatim>\<open>ctx.s.face_mesh\<close>. The class that does so is not part of the sources at hand; the
  spec has the arrays "always match configured max-face count", and a new field is all
  zero. The same value is the dictionary \<^verbatim>\<open>face_mesh_np\<close> of two \<^verbatim>\<open>np.zeros\<close> arrays.
\<close>

definition zeros_nddict :: "nat \<Rightarrow> nat \<Rightarrow> ('a::zero) nddict" where
  "zeros_nddict f n = \<lparr>pxnorm = np_zeros f n (0, 0, 0), px = np_zeros f n (0, 0)\<rparr>"

text \<open>
  \<^verbatim>\<open>FaceMeshConnection.field(shape=n)\<close> is a field of \<open>n\<close> zero entries. The loops of
  \<^verbatim>\<open>setup_connections\<close> store entry \<open>i\<close> of the vendor's table at index \<open>i\<close>; the index
  runs below the field's own shape.
\<close>

definition conn_field :: "nat \<Rightarrow> face_mesh_connection list" where
  "conn_field n = replicate n \<lparr>conn_a = 0, conn_b = 0\<rparr>"

definition FaceMeshConnection :: "int \<times> int \<Rightarrow> face_mesh_connection" where
  "FaceMeshConnection p = \<lparr>conn_a = fst p, conn_b = snd p\<rparr>"

text \<open>\<^verbatim>\<open>for i in range(conns.shape[0]): conns[i] = FaceMeshConnection(*T[i])\<close>\<close>

definition fill_by_index ::
  "(int \<times> int) list \<Rightarrow> face_mesh_connection list \<Rightarrow> face_mesh_connection list" where
  "fill_by_index T conns =
     fold (\<lambda>i c. c[i := FaceMeshConnection (T ! i)]) [0..<length conns] conns"

text \<open>\<^verbatim>\<open>for i, j in enumerate(T): conns[i] = FaceMeshConnection(j[0], j[1])\<close>\<close>

definition fill_by_enumerate ::
  "(int \<times> int) list \<Rightarrow> face_mesh_connection list \<Rightarrow> face_mesh_connection list" where
  "fill_by_enumerate T conns =
     fold (\<lambda>(i, j) c. c[i := \<lparr>conn_a = fst j, conn_b = snd j\<rparr>]) (enumerate 0 T) conns"

definition kw_get :: "'v option \<Rightarrow> 'v \<Rightarrow> 'v" where
  "kw_get v d = (case v of None \<Rightarrow> d | Some w \<Rightarrow> w)"

text \<open>
  \<^verbatim>\<open>__init__\<close>, with \<^verbatim>\<open>setup_connections\<close> in place. \<open>cx\<close> and \<open>cy\<close> are the context's
  dimensions, \<open>m\<close> the detector that \<^verbatim>\<open>FaceMesh(**config)\<close> returns.
\<close>

definition init ::
  "vendor \<Rightarrow> kwargs \<Rightarrow> 'a \<Rightarrow> 'a \<Rightarrow> 'm \<Rightarrow> ('a::zero, 'm) mp_face_mesh" where
  "init V kw cx cy m =
     (let cfg = \<lparr>static_image_mode = kw_get (kw_static_mode kw) False,
                 max_num_faces = kw_get (kw_max_faces kw) 1,
                 refine_landmarks = kw_get (kw_refine_landmarks kw) False\<rparr>;
          n = 478
      in \<lparr>ctx = \<lparr>ctx_x = cx, ctx_y = cy, s_face_mesh = zeros_nddict (max_num_faces cfg) n\<rparr>,
          n_conns = length (FACEMESH_CONTOURS V),
          n_points = n,
          config = cfg,
          face_mesh = m,
          lips_conns = fill_by_index (FACEMESH_LIPS V) (conn_field (length (FACEMESH_LIPS V))),
          left_eye_conns =
            fill_by_index (FACEMESH_LEFT_EYE V) (conn_field (length (FACEMESH_LEFT_EYE V))),
          left_iris_conns =
            fill_by_index (FACEMESH_LEFT_IRIS V) (conn_field (length (FACEMESH_LEFT_IRIS V))),
          left_eyebrow_conns =
            fill_by_index (FACEMESH_LEFT_EYEBROW V)
              (conn_field (length (FACEMESH_LEFT_EYEBROW V))),
          right_eye_conns =
            fill_by_index (FACEMESH_RIGHT_EYE V) (conn_field (length (FACEMESH_RIGHT_EYE V))),
          right_eyebrow_conns =
            fill_by_index (FACEMESH_RIGHT_EYEBROW V)
              (conn_field (length (FACEMESH_RIGHT_EYEBROW V))),
          right_iris_conns =
            fill_by_index (FACEMESH_RIGHT_IRIS V) (conn_field (length (FACEMESH_RIGHT_IRIS V))),
          face_oval_conns =
            fill_by_index (FACEMESH_FACE_OVAL V) (conn_field (length (FACEMESH_FACE_OVAL V))),
          nose_conns = fill_by_index (FACEMESH_NOSE V) (conn_field (length (FACEMESH_NOSE V))),
          contours_conns =
            fill_by_enumerate (FACEMESH_CONTOURS V)
              (conn_field (length (FACEMESH_CONTOURS V))),
          face_mesh_np = zeros_nddict (max_num_faces cfg) n,
          detected = 0,
          upd = \<lparr>count_rate = kw_get (kw_face_detect_rate kw) 10, counter = 0\<rparr>,
          results = None,
          self_px = None\<rparr>)"

subsection \<open>Detection\<close>

text \<open>
  \<^verbatim>\<open>arr[i, j] = v\<close> on a numpy array: an index outside the shape raises \<^verbatim>\<open>IndexError\<close>.
  The indices come from \<^verbatim>\<open>enumerate\<close> and are never negative.
\<close>

definition np_setitem :: "'v list list \<Rightarrow> nat \<Rightarrow> nat \<Rightarrow> 'v \<Rightarrow> error + 'v list list" where
  "np_setitem arr i j v =
     (if i < length arr \<and> j < length (arr ! i) then Inr (arr[i := (arr ! i)[j := v]])
      else Inl IndexError)"

text \<open>The two vectors computed for a landmark, as stored into a \<^verbatim>\<open>float32\<close> array.\<close>

definition pxnorm_of :: "('a \<Rightarrow> 'a) \<Rightarrow> ('a::{one,minus}) landmark \<Rightarrow> 'a vec3" where
  "pxnorm_of f32 lm = (f32 (1 - lm_x lm), f32 (1 - lm_y lm), f32 (1 - lm_z lm))"

definition px_of ::
  "('a \<Rightarrow> 'a) \<Rightarrow> 'a \<Rightarrow> 'a \<Rightarrow> ('a::{one,minus,times}) landmark \<Rightarrow> 'a vec2" where
  "px_of f32 cx cy lm = (f32 (cx * (1 - lm_x lm)), f32 (cy * (1 - lm_y lm)))"

text \<open>
  The inner loop \<^verbatim>\<open>for j, lm in enumerate(face.landmark)\<close>, from index \<open>j\<close> on. An
  exception leaves the loop with what has been stored so far.
\<close>

fun write_landmarks ::
  "('a \<Rightarrow> 'a) \<Rightarrow> 'a \<Rightarrow> 'a \<Rightarrow> nat \<Rightarrow> nat \<Rightarrow> ('a::{one,minus,times}) face \<Rightarrow> 'a nddict
     \<Rightarrow> error option \<times> 'a nddict" where
  "write_landmarks f32 cx cy i j [] np = (None, np)"
| "write_landmarks f32 cx cy i j (lm # lms) np =
     (case np_setitem (pxnorm np) i j (pxnorm_of f32 lm) of
        Inl e \<Rightarrow> (Some e, np)
      | Inr A \<Rightarrow>
          (case np_setitem (px np) i j (px_of f32 cx cy lm) of
             Inl e \<Rightarrow> (Some e, np\<lparr>pxnorm := A\<rparr>)
           | Inr B \<Rightarrow> write_landmarks f32 cx cy i (Suc j) lms (np\<lparr>pxnorm := A, px := B\<rparr>)))"

text \<open>The outer loop \<^verbatim>\<open>for i, face in enumerate(multi_face_landmarks)\<close>, from index \<open>i\<close> on.\<close>

fun write_faces ::
  "('a \<Rightarrow> 'a) \<Rightarrow> 'a \<Rightarrow> 'a \<Rightarrow> nat \<Rightarrow> ('a::{one,minus,times}) face list \<Rightarrow> 'a nddict
     \<Rightarrow> error option \<times> 'a nddict" where
  "write_faces f32 cx cy i [] np = (None, np)"
| "write_faces f32 cx cy i (face # faces) np =
     (case write_landmarks f32 cx cy i 0 face np of
        (Some e, np') \<Rightarrow> (Some e, np')
      | (None, np') \<Rightarrow> write_faces f32 cx cy (Suc i) faces np')"

text \<open>
  Modelled from the spec: the methods \<^verbatim>\<open>fill\<close> and \<^verbatim>\<open>set_from_nddict\<close> of the shared state
  store, whose class is not part of the sources at hand. The spec has the store
  "zeroed" by the first and describes the second as "bulk array assignment".
\<close>

definition state_fill :: "'a nddict \<Rightarrow> 'a \<Rightarrow> 'a nddict" where
  "state_fill st v =
     \<lparr>pxnorm = map (map (\<lambda>_. (v, v, v))) (pxnorm st), px = map (map (\<lambda>_. (v, v))) (px st)\<rparr>"

definition set_from_nddict :: "'a nddict \<Rightarrow> 'a nddict \<Rightarrow> 'a nddict" where
  "set_from_nddict st np = \<lparr>pxnorm = pxnorm np, px = px np\<rparr>"

text \<open>The branch of \<^verbatim>\<open>detect\<close> taken when \<^verbatim>\<open>not self.results.multi_face_landmarks\<close>.\<close>

definition no_face :: "('a::zero, 'm) mp_face_mesh \<Rightarrow> ('a, 'm) mp_face_mesh" where
  "no_face s = s\<lparr>ctx := (ctx s)\<lparr>s_face_mesh := state_fill (s_face_mesh (ctx s)) 0\<rparr>,
                 detected := - 1\<rparr>"

text \<open>
  \<^verbatim>\<open>detect\<close>. \<open>process\<close> is the detector's method: from the detector and a frame, the
  attribute \<^verbatim>\<open>multi_face_landmarks\<close> of the result (\<open>None\<close> or a list of faces) and the
  detector afterwards. The first component of the result is the exception raised, if any.
\<close>

definition detect ::
  "('m \<Rightarrow> 'fr \<Rightarrow> 'a face list option \<times> 'm) \<Rightarrow> ('a \<Rightarrow> 'a) \<Rightarrow> 'fr option
     \<Rightarrow> ('a::{zero,one,minus,times}, 'm) mp_face_mesh \<Rightarrow> error option \<times> ('a, 'm) mp_face_mesh"
  where
  "detect process f32 frame s =
     (case frame of
        None \<Rightarrow> (None, s)
      | Some fr \<Rightarrow>
          (let r = process (face_mesh s) fr;
               s1 = s\<lparr>face_mesh := snd r, results := Some (fst r)\<rparr>
           in case fst r of
                None \<Rightarrow> (None, no_face s1)
              | Some faces \<Rightarrow>
                  if faces = [] then (None, no_face s1)
                  else
                    (case write_faces f32 (ctx_x (ctx s1)) (ctx_y (ctx s1)) 0 faces
                            (face_mesh_np s1) of
                       (Some e, np') \<Rightarrow> (Some e, s1\<lparr>face_mesh_np := np'\<rparr>)
                     | (None, np') \<Rightarrow>
                         (None,
                          s1\<lparr>face_mesh_np := np',
                             ctx := (ctx s1)\<lparr>s_face_mesh :=
                                      set_from_nddict (s_face_mesh (ctx s1)) np'\<rparr>,
                             detected := int (length faces)\<rparr>))))"

text \<open>
  Modelled from the spec: \<^verbatim>\<open>__call__\<close> hands the frame to the \<^verbatim>\<open>Updater\<close>, which runs
  \<^verbatim>\<open>detect\<close> on one invocation in every \<open>count_rate\<close> and does nothing on the others.
\<close>

definition call ::
  "('m \<Rightarrow> 'fr \<Rightarrow> 'a face list option \<times> 'm) \<Rightarrow> ('a \<Rightarrow> 'a) \<Rightarrow> 'fr option
     \<Rightarrow> ('a::{zero,one,minus,times}, 'm) mp_face_mesh \<Rightarrow> error option \<times> ('a, 'm) mp_face_mesh"
  where
  "call process f32 frame s =
     (let c = Suc (counter (upd s))
      in if count_rate (upd s) \<le> c
         then detect process f32 frame (s\<lparr>upd := (upd s)\<lparr>counter := 0\<rparr>\<rparr>)
         else (None, s\<lparr>upd := (upd s)\<lparr>counter := c\<rparr>\<rparr>))"

subsection \<open>Drawing\<close>

text \<open>
  A read of a field inside a kernel. An index outside the shape is checked in the
  runtime's debug mode only, where it stops the kernel; that is the behaviour taken
  here, as the error \<open>OutOfBounds\<close>.
\<close>

definition ti_get :: "'v list \<Rightarrow> int \<Rightarrow> error + 'v" where
  "ti_get fld k = (if 0 \<le> k \<and> nat k < length fld then Inr (fld ! nat k) else Inl OutOfBounds)"

definition ti_get2 :: "'v list list \<Rightarrow> int \<Rightarrow> int \<Rightarrow> error + 'v" where
  "ti_get2 fld i k =
     (case ti_get fld i of Inl e \<Rightarrow> Inl e | Inr row \<Rightarrow> ti_get row k)"

text \<open>\<^verbatim>\<open>self.px.circle(...)\<close> and \<^verbatim>\<open>self.px.line(...)\<close>: the attribute is looked up first.\<close>

definition px_call ::
  "draw_call \<Rightarrow> ('a, 'm) mp_face_mesh \<Rightarrow> error + ('a, 'm) mp_face_mesh" where
  "px_call c s =
     (case self_px s of
        None \<Rightarrow> Inl AttributeError
      | Some calls \<Rightarrow> Inr (s\<lparr>self_px := Some (calls @ [c])\<rparr>))"

definition draw_lm ::
  "('a \<Rightarrow> int) \<Rightarrow> int \<Rightarrow> int \<Rightarrow> int \<Rightarrow> rgba \<Rightarrow> ('a, 'm) mp_face_mesh
     \<Rightarrow> error + ('a, 'm) mp_face_mesh" where
  "draw_lm cast face lm r col s =
     (case ti_get2 (px (s_face_mesh (ctx s))) face lm of
        Inl e \<Rightarrow> Inl e
      | Inr p \<Rightarrow> px_call (Circle (cast (fst p)) (cast (snd p)) r col) s)"

definition draw_conn ::
  "('a \<Rightarrow> int) \<Rightarrow> int \<Rightarrow> int \<Rightarrow> rgba \<Rightarrow> ('a, 'm) mp_face_mesh
     \<Rightarrow> error + ('a, 'm) mp_face_mesh" where
  "draw_conn cast face conn col s =
     (case ti_get (contours_conns s) conn of
        Inl e \<Rightarrow> Inl e
      | Inr c \<Rightarrow>
          (case ti_get2 (px (s_face_mesh (ctx s))) face (conn_a c) of
             Inl e \<Rightarrow> Inl e
           | Inr p \<Rightarrow>
               (case ti_get2 (px (s_face_mesh (ctx s))) face (conn_b c) of
                  Inl e \<Rightarrow> Inl e
                | Inr q \<Rightarrow>
                    px_call (Line (cast (fst p)) (cast (snd p)) (cast (fst q)) (cast (snd q)) col)
                      s)))"

text \<open>\<^verbatim>\<open>ti.ndrange(d, n)\<close>: the index pairs, first index outermost.\<close>

definition ndrange :: "int \<Rightarrow> nat \<Rightarrow> (int \<times> int) list" where
  "ndrange d n = List.product (map int [0..<nat d]) (map int [0..<n])"

text \<open>A loop whose body may fail: the first failure ends it.\<close>

fun for_each :: "('i \<Rightarrow> 's \<Rightarrow> error + 's) \<Rightarrow> 'i list \<Rightarrow> 's \<Rightarrow> error option \<times> 's" where
  "for_each body [] s = (None, s)"
| "for_each body (i # rest) s =
     (case body i s of Inl e \<Rightarrow> (Some e, s) | Inr s' \<Rightarrow> for_each body rest s')"

definition draw_face_lms ::
  "('a \<Rightarrow> int) \<Rightarrow> int \<Rightarrow> rgba \<Rightarrow> ('a, 'm) mp_face_mesh
     \<Rightarrow> error option \<times> ('a, 'm) mp_face_mesh" where
  "draw_face_lms cast r col s =
     for_each (\<lambda>(i, lm). draw_lm cast i lm r col) (ndrange (detected s) (n_points s)) s"

definition draw_face_conns ::
  "('a \<Rightarrow> int) \<Rightarrow> rgba \<Rightarrow> ('a, 'm) mp_face_mesh \<Rightarrow> error option \<times> ('a, 'm) mp_face_mesh" where
  "draw_face_conns cast col s =
     for_each (\<lambda>(i, lm). draw_conn cast i lm col) (ndrange (detected s) (n_points s)) s"

definition draw ::
  "('a \<Rightarrow> int) \<Rightarrow> ('a, 'm) mp_face_mesh \<Rightarrow> error option \<times> ('a, 'm) mp_face_mesh" where
  "draw cast s =
     (if 0 < detected s then
        (case draw_face_lms cast 5 (1, 1, 1, 1) s of
           (Some e, s') \<Rightarrow> (Some e, s')
         | (None, s') \<Rightarrow> draw_face_conns cast (1, 1, 1, 1) s')
      else (None, s))"

subsection \<open>Reachable states\<close>

text \<open>
  What \<^verbatim>\<open>setup_connections\<close> is meant to establish: each table holds the vendor's
  pairs, in order.
\<close>

definition tables_ok :: "vendor \<Rightarrow> ('a, 'm) mp_face_mesh \<Rightarrow> bool" where
  "tables_ok V s \<longleftrightarrow>
     lips_conns s = map FaceMeshConnection (FACEMESH_LIPS V) \<and>
     left_eye_conns s = map FaceMeshConnection (FACEMESH_LEFT_EYE V) \<and>
     left_iris_conns s = map FaceMeshConnection (FACEMESH_LEFT_IRIS V) \<and>
     left_eyebrow_conns s = map FaceMeshConnection (FACEMESH_LEFT_EYEBROW V) \<and>
     right_eye_conns s = map FaceMeshConnection (FACEMESH_RIGHT_EYE V) \<and>
     right_eyebrow_conns s = map FaceMeshConnection (FACEMESH_RIGHT_EYEBROW V) \<and>
     right_iris_conns s = map FaceMeshConnection (FACEMESH_RIGHT_IRIS V) \<and>
     face_oval_conns s = map FaceMeshConnection (FACEMESH_FACE_OVAL V) \<and>
     nose_conns s = map FaceMeshConnection (FACEMESH_NOSE V) \<and>
     contours_conns s = map FaceMeshConnection (FACEMESH_CONTOURS V)"

text \<open>
  The arrays of the instance and of the shared store have the configured shape:
  \<^verbatim>\<open>max_num_faces\<close> rows of 478 entries.
\<close>

definition shapes_ok :: "('a, 'm) mp_face_mesh \<Rightarrow> bool" where
  "shapes_ok s \<longleftrightarrow>
     n_points s = 478 \<and>
     map length (pxnorm (face_mesh_np s)) = replicate (max_num_faces (config s)) 478 \<and>
     map length (px (face_mesh_np s)) = replicate (max_num_faces (config s)) 478 \<and>
     map length (pxnorm (s_face_mesh (ctx s))) = replicate (max_num_faces (config s)) 478 \<and>
     map length (px (s_face_mesh (ctx s))) = replicate (max_num_faces (config s)) 478"

text \<open>
  The states an instance can be in: built by \<^verbatim>\<open>__init__\<close>, then any sequence of
  \<^verbatim>\<open>detect\<close>, \<^verbatim>\<open>draw\<close> and \<^verbatim>\<open>__call__\<close>, whether or not the call raised.
\<close>

inductive reachable ::
  "('m \<Rightarrow> 'fr \<Rightarrow> 'a face list option \<times> 'm) \<Rightarrow> ('a \<Rightarrow> 'a) \<Rightarrow> ('a \<Rightarrow> int) \<Rightarrow> vendor
     \<Rightarrow> ('a::{zero,one,minus,times}, 'm) mp_face_mesh \<Rightarrow> bool"
  for process f32 cast V where
  r_init: "reachable process f32 cast V (init V kw cx cy m)"
| r_detect: "reachable process f32 cast V s \<Longrightarrow>
     reachable process f32 cast V (snd (detect process f32 frame s))"
| r_draw: "reachable process f32 cast V s \<Longrightarrow> reachable process f32 cast V (snd (draw cast s))"
| r_call: "reachable process f32 cast V s \<Longrightarrow>
     reachable process f32 cast V (snd (call process f32 frame s))"

subsection \<open>Example values\<close>

text \<open>
  A detector for examples: the frame itself carries what the detector reports, and the
  detector has no state.
\<close>

definition replay :: "'m \<Rightarrow> 'r \<Rightarrow> 'r \<times> 'm" where
  "replay m fr = (fr, m)"

text \<open>Short stand-ins for the vendor's tables, no keyword arguments, one landmark, and
  the instance built from them for a frame of 640 by 480.\<close>

definition vendor_example :: vendor where
  "vendor_example =
     \<lparr>FACEMESH_LIPS = [(61, 146), (146, 91)],
      FACEMESH_LEFT_EYE = [(263, 249)],
      FACEMESH_LEFT_IRIS = [(474, 475)],
      FACEMESH_LEFT_EYEBROW = [(276, 283)],
      FACEMESH_RIGHT_EYE = [(33, 7)],
      FACEMESH_RIGHT_EYEBROW = [(46, 53)],
      FACEMESH_RIGHT_IRIS = [(469, 470)],
      FACEMESH_FACE_OVAL = [(10, 338)],
      FACEMESH_NOSE = [(168, 6)],
      FACEMESH_CONTOURS = [(61, 146), (146, 91), (263, 249), (33, 7)]\<rparr>"

definition kwargs_default :: kwargs where
  "kwargs_default =
     \<lparr>kw_static_mode = None, kw_max_faces = None, kw_refine_landmarks = None,
      kw_face_detect_rate = None\<rparr>"

definition lm_example :: "real landmark" where
  "lm_example = \<lparr>lm_x = 1 / 4, lm_y = 1 / 2, lm_z = 0\<rparr>"

definition mesh_example :: "(real, unit) mp_face_mesh" where
  "mesh_example = init vendor_example kwargs_default 640 480 ()"

text \<open>A second landmark, the instance after one detection of one face, and an instance
  configured for two faces, before and after a detection of two.\<close>

definition lm_other :: "real landmark" where
  "lm_other = \<lparr>lm_x = 1 / 2, lm_y = 1 / 4, lm_z = 1\<rparr>"

definition mesh_one_face :: "(real, unit) mp_face_mesh" where
  "mesh_one_face = snd (detect replay id (Some (Some [[lm_example]])) mesh_example)"

definition mesh_two :: "(real, unit) mp_face_mesh" where
  "mesh_two = init vendor_example (kwargs_default\<lparr>kw_max_faces := Some 2\<rparr>) 640 480 ()"

definition mesh_two_faces :: "(real, unit) mp_face_mesh" where
  "mesh_two_faces = snd (detect replay id (Some (Some [[lm_example], [lm_example]])) mesh_two)"

subsection \<open>The conversion to \<^verbatim>\<open>float32\<close>\<close>

text \<open>
  An instance of the parameter \<open>f32\<close> over the reals: what numpy does when a
  double-precision value is assigned into an array of \<^verbatim>\<open>float32\<close>, rounding to the nearest
  single-precision number, ties to the even significand. Every single-precision number
  is a whole multiple of \<open>1 / 2 ^ 149\<close>, so the value is scaled by \<open>2 ^ 149\<close>; there the
  representable numbers around a value of \<open>b\<close> binary digits are the multiples of
  \<open>2 ^ (b - 24)\<close>, and all whole numbers when \<open>b \<le> 24\<close> (the subtraction on \<open>nat\<close> stops
  at 0).
  Beyond the largest finite single-precision number the conversion gives an infinity,
  which the reals do not have; the function is used below that bound only.
\<close>

text \<open>The number of binary digits of a natural number.\<close>

fun bit_length :: "nat \<Rightarrow> nat" where
  "bit_length n = (if n = 0 then 0 else Suc (bit_length (n div 2)))"

declare bit_length.simps [simp del]

text \<open>Rounding to the nearest integer, a tie going to the even one.\<close>

definition round_half_even :: "real \<Rightarrow> int" where
  "round_half_even r =
     (let f = \<lfloor>r\<rfloor>; d = r - of_int f
      in if d < 1 / 2 then f else if 1 / 2 < d then f + 1 else if even f then f else f + 1)"

definition np_float32 :: "real \<Rightarrow> real" where
  "np_float32 v =
     (let n = \<bar>v\<bar> * 2 ^ 149;
          ulp = 2 ^ (bit_length (nat \<lfloor>n\<rfloor>) - 24)
      in sgn v * (of_int (round_half_even (n / ulp)) * ulp / 2 ^ 149))"

text \<open>
  A landmark whose \<open>x\<close> is the single-precision number nearest to 0.3, as the detector
  reports its coordinates in single precision, and the instance after the detection of
  one face with that one landmark, the arrays filled through \<open>np_float32\<close>. At this
  landmark and a frame of 640 by 480 the double-precision operations \<open>1 - x\<close> and
  \<open>640 * (1 - x)\<close> are exact (at most 27 significant binary digits), so they are the
  operations on the reals.
\<close>

definition lm_near_03 :: "real landmark" where
  "lm_near_03 = \<lparr>lm_x = 5033165 / 16777216, lm_y = 1 / 2, lm_z = 0\<rparr>"

definition mesh_rounded :: "(real, unit) mp_face_mesh" where
  "mesh_rounded = snd (detect replay np_float32 (Some (Some [[lm_near_03]])) mesh_example)"

section \<open>Auxiliary facts\<close>

subsection \<open>The loops of \<^verbatim>\<open>setup_connections\<close>\<close>

lemma fold_update_upt:
  "k \<le> length c \<Longrightarrow> fold (\<lambda>i c. c[i := f i]) [0..<k] c = map f [0..<k] @ drop k c"
proof (induction k)
  case 0
  then show ?case by simp
next
  case (Suc k)
  then have "k < length c" by simp
  then have "(map f [0..<k] @ drop k c)[k := f k] = map f [0..<k] @ f k # drop (Suc k) c"
    by (simp add: list_update_append Cons_nth_drop_Suc [symmetric])
  with Suc show ?case by simp
qed

lemma fill_by_index_eq:
  "fill_by_index T (conn_field (length T)) = map FaceMeshConnection T"
proof -
  have "fill_by_index T (conn_field (length T)) = map (\<lambda>i. FaceMeshConnection (T ! i)) [0..<length T]"
    by (simp add: fill_by_index_def conn_field_def fold_update_upt)
  also have "\<dots> = map FaceMeshConnection T"
    by (rule nth_equalityI) simp_all
  finally show ?thesis .
qed

lemma fold_update_enumerate:
  "n + length T \<le> length c \<Longrightarrow>
   fold (\<lambda>(i, j) c. c[i := g j]) (enumerate n T) c = take n c @ map g T @ drop (n + length T) c"
proof (induction T arbitrary: n c)
  case Nil
  then show ?case by simp
next
  case (Cons t T)
  then have n: "n < length c" by simp
  have "fold (\<lambda>(i, j) c. c[i := g j]) (enumerate n (t # T)) c
        = fold (\<lambda>(i, j) c. c[i := g j]) (enumerate (Suc n) T) (c[n := g t])"
    by simp
  also have "\<dots> = take (Suc n) (c[n := g t]) @ map g T @ drop (Suc n + length T) (c[n := g t])"
    using Cons.prems by (intro Cons.IH) simp
  also have "\<dots> = take n c @ map g (t # T) @ drop (n + length (t # T)) c"
    using n by (simp add: take_Suc_conv_app_nth)
  finally show ?case .
qed

lemma fill_by_enumerate_eq:
  "fill_by_enumerate T (conn_field (length T)) = map FaceMeshConnection T"
proof -
  have "(\<lambda>j. \<lparr>conn_a = fst j, conn_b = snd j\<rparr>) = FaceMeshConnection"
    by (simp add: fun_eq_iff FaceMeshConnection_def)
  then show ?thesis
    using fold_update_enumerate [of 0 T "conn_field (length T)" "\<lambda>j. \<lparr>conn_a = fst j, conn_b = snd j\<rparr>"]
    by (simp add: fill_by_enumerate_def conn_field_def)
qed

subsection \<open>The inner loop of \<^verbatim>\<open>detect\<close>\<close>

lemma shape_update: "map length (A[i := (A ! i)[j := v]]) = map length A"
proof (rule nth_equalityI)
  fix r assume "r < length (map length (A[i := (A ! i)[j := v]]))"
  then show "map length (A[i := (A ! i)[j := v]]) ! r = map length A ! r"
    by (cases "r = i") simp_all
qed simp

lemma np_setitem_Inr:
  "np_setitem A i j v = Inr A' \<longleftrightarrow>
     i < length A \<and> j < length (A ! i) \<and> A' = A[i := (A ! i)[j := v]]"
  by (auto simp: np_setitem_def)

lemma np_setitem_Inl:
  "np_setitem A i j v = Inl e \<longleftrightarrow> \<not> (i < length A \<and> j < length (A ! i)) \<and> e = IndexError"
  by (auto simp: np_setitem_def)

lemma np_setitem_shape: "np_setitem A i j v = Inr A' \<Longrightarrow> map length A' = map length A"
  by (simp add: np_setitem_Inr shape_update)

lemma np_setitem_same_shape:
  assumes "map length A = map length B"
  shows "np_setitem A i j v = Inl IndexError \<longleftrightarrow> np_setitem B i j w = Inl IndexError"
proof -
  from assms have l: "length A = length B" by (metis length_map)
  have "i < length A \<Longrightarrow> length (A ! i) = length (B ! i)"
    using assms l by (metis nth_map)
  with l show ?thesis by (auto simp: np_setitem_def)
qed

text \<open>The three ways through one round of the inner loop.\<close>

lemma write_landmarks_Cons_cases:
  obtains
    (fail1) "np_setitem (pxnorm np) i j (pxnorm_of f32 lm) = Inl IndexError"
      "write_landmarks f32 cx cy i j (lm # lms) np = (Some IndexError, np)"
  | (fail2) A where "np_setitem (pxnorm np) i j (pxnorm_of f32 lm) = Inr A"
      "np_setitem (px np) i j (px_of f32 cx cy lm) = Inl IndexError"
      "write_landmarks f32 cx cy i j (lm # lms) np = (Some IndexError, np\<lparr>pxnorm := A\<rparr>)"
  | (ok) A B where "np_setitem (pxnorm np) i j (pxnorm_of f32 lm) = Inr A"
      "np_setitem (px np) i j (px_of f32 cx cy lm) = Inr B"
      "write_landmarks f32 cx cy i j (lm # lms) np =
         write_landmarks f32 cx cy i (Suc j) lms (np\<lparr>pxnorm := A, px := B\<rparr>)"
proof (cases "np_setitem (pxnorm np) i j (pxnorm_of f32 lm)")
  case (Inl e)
  then have "e = IndexError" by (simp add: np_setitem_Inl)
  with Inl fail1 show ?thesis by simp
next
  case A: (Inr A)
  show ?thesis
  proof (cases "np_setitem (px np) i j (px_of f32 cx cy lm)")
    case (Inl e)
    then have "e = IndexError" by (simp add: np_setitem_Inl)
    with Inl A fail2 show ?thesis by simp
  next
    case (Inr B)
    with A ok show ?thesis by simp
  qed
qed

lemma write_landmarks_shape:
  "write_landmarks f32 cx cy i j lms np = (e, np') \<Longrightarrow>
     map length (pxnorm np') = map length (pxnorm np) \<and> map length (px np') = map length (px np)"
proof (induction lms arbitrary: j np)
  case Nil
  then show ?case by simp
next
  case (Cons lm lms)
  show ?case
  proof (cases rule: write_landmarks_Cons_cases [of np i j f32 lm cx cy lms])
    case fail1
    with Cons.prems show ?thesis by simp
  next
    case (fail2 A)
    with Cons.prems show ?thesis by (auto dest: np_setitem_shape)
  next
    case (ok A B)
    with Cons.prems
    have "write_landmarks f32 cx cy i (Suc j) lms (np\<lparr>pxnorm := A, px := B\<rparr>) = (e, np')"
      by simp
    from Cons.IH [OF this] ok(1,2) show ?thesis by (auto dest: np_setitem_shape)
  qed
qed

lemma write_landmarks_same_shape:
  "map length (pxnorm np) = map length (pxnorm np2) \<Longrightarrow>
   map length (px np) = map length (px np2) \<Longrightarrow>
   fst (write_landmarks f32 cx cy i j lms np) = fst (write_landmarks f32 cx cy i j lms np2)"
proof (induction lms arbitrary: j np np2)
  case Nil
  then show ?case by simp
next
  case (Cons lm lms)
  let ?v = "pxnorm_of f32 lm" and ?w = "px_of f32 cx cy lm"
  from Cons.prems
  have a: "np_setitem (pxnorm np) i j ?v = Inl IndexError
             \<longleftrightarrow> np_setitem (pxnorm np2) i j ?v = Inl IndexError"
    and b: "np_setitem (px np) i j ?w = Inl IndexError
             \<longleftrightarrow> np_setitem (px np2) i j ?w = Inl IndexError"
    by (simp_all add: np_setitem_same_shape)
  show ?case
  proof (cases rule: write_landmarks_Cons_cases [of np i j f32 lm cx cy lms])
    case fail1
    with a show ?thesis by simp
  next
    case (fail2 A)
    with a b show ?thesis
      by (cases rule: write_landmarks_Cons_cases [of np2 i j f32 lm cx cy lms]) simp_all
  next
    case (ok A B)
    show ?thesis
    proof (cases rule: write_landmarks_Cons_cases [of np2 i j f32 lm cx cy lms])
      case fail1
      with ok a show ?thesis by simp
    next
      case (fail2 A2)
      with ok b show ?thesis by simp
    next
      case ok2: (ok A2 B2)
      have "fst (write_landmarks f32 cx cy i (Suc j) lms (np\<lparr>pxnorm := A, px := B\<rparr>))
          = fst (write_landmarks f32 cx cy i (Suc j) lms (np2\<lparr>pxnorm := A2, px := B2\<rparr>))"
        using ok(1,2) ok2(1,2) Cons.prems by (intro Cons.IH) (auto dest!: np_setitem_shape)
      with ok(3) ok2(3) show ?thesis by simp
    qed
  qed
qed

lemma same_shapeD:
  assumes "map length A = map length B"
  shows "length A = length B" and "r < length A \<Longrightarrow> length (A ! r) = length (B ! r)"
proof -
  from assms show l: "length A = length B" by (metis length_map)
  show "r < length A \<Longrightarrow> length (A ! r) = length (B ! r)"
    using assms l by (metis nth_map)
qed

lemma write_landmarks_frame:
  "write_landmarks f32 cx cy i j lms np = (e, np') \<Longrightarrow>
     (\<forall>r. r \<noteq> i \<longrightarrow> pxnorm np' ! r = pxnorm np ! r \<and> px np' ! r = px np ! r) \<and>
     (\<forall>k. k < j \<or> j + length lms \<le> k \<longrightarrow>
        pxnorm np' ! i ! k = pxnorm np ! i ! k \<and> px np' ! i ! k = px np ! i ! k)"
proof (induction lms arbitrary: j np)
  case Nil
  then show ?case by simp
next
  case (Cons lm lms)
  show ?case
  proof (cases rule: write_landmarks_Cons_cases [of np i j f32 lm cx cy lms])
    case fail1
    with Cons.prems show ?thesis by simp
  next
    case (fail2 A)
    with Cons.prems show ?thesis by (auto simp: np_setitem_Inr)
  next
    case (ok A B)
    with Cons.prems
    have "write_landmarks f32 cx cy i (Suc j) lms (np\<lparr>pxnorm := A, px := B\<rparr>) = (e, np')"
      by simp
    from Cons.IH [OF this] ok(1,2) show ?thesis by (auto simp: np_setitem_Inr)
  qed
qed

lemma write_landmarks_values:
  "write_landmarks f32 cx cy i j lms np = (None, np') \<Longrightarrow> k < length lms \<Longrightarrow>
     i < length (pxnorm np') \<and> j + k < length (pxnorm np' ! i) \<and>
     pxnorm np' ! i ! (j + k) = pxnorm_of f32 (lms ! k) \<and>
     i < length (px np') \<and> j + k < length (px np' ! i) \<and>
     px np' ! i ! (j + k) = px_of f32 cx cy (lms ! k)"
proof (induction lms arbitrary: j k np)
  case Nil
  then show ?case by simp
next
  case (Cons lm lms)
  show ?case
  proof (cases rule: write_landmarks_Cons_cases [of np i j f32 lm cx cy lms])
    case fail1
    with Cons.prems show ?thesis by simp
  next
    case (fail2 A)
    with Cons.prems show ?thesis by simp
  next
    case (ok A B)
    let ?np1 = "np\<lparr>pxnorm := A, px := B\<rparr>"
    from ok Cons.prems
    have rest: "write_landmarks f32 cx cy i (Suc j) lms ?np1 = (None, np')"
      by simp
    show ?thesis
    proof (cases k)
      case 0
      from write_landmarks_shape [OF rest]
      have sh: "map length (pxnorm np') = map length A" "map length (px np') = map length B"
        by simp_all
      from ok(1,2) have rng: "i < length A" "j < length (A ! i)" "i < length B" "j < length (B ! i)"
        and val: "A ! i ! j = pxnorm_of f32 lm" "B ! i ! j = px_of f32 cx cy lm"
        by (auto simp: np_setitem_Inr)
      from write_landmarks_frame [OF rest]
      have "pxnorm np' ! i ! j = A ! i ! j" "px np' ! i ! j = B ! i ! j"
        by simp_all
      with 0 rng val same_shapeD [OF sh(1)] same_shapeD [OF sh(2)] show ?thesis
        by simp
    next
      case (Suc k')
      with Cons.prems have "k' < length lms" by simp
      from Cons.IH [OF rest this] Suc show ?thesis by simp
    qed
  qed
qed

lemma update_same: "A ! i ! j = v \<Longrightarrow> A[i := (A ! i)[j := v]] = A"
  by (metis list_update_id)

lemma write_landmarks_fixed:
  "(\<And>k. k < length lms \<Longrightarrow>
      i < length (pxnorm np) \<and> j + k < length (pxnorm np ! i) \<and>
      pxnorm np ! i ! (j + k) = pxnorm_of f32 (lms ! k) \<and>
      i < length (px np) \<and> j + k < length (px np ! i) \<and>
      px np ! i ! (j + k) = px_of f32 cx cy (lms ! k)) \<Longrightarrow>
   write_landmarks f32 cx cy i j lms np = (None, np)"
proof (induction lms arbitrary: j)
  case Nil
  then show ?case by simp
next
  case (Cons lm lms)
  from Cons.prems [of 0]
  have a: "np_setitem (pxnorm np) i j (pxnorm_of f32 lm) = Inr (pxnorm np)"
    and b: "np_setitem (px np) i j (px_of f32 cx cy lm) = Inr (px np)"
    by (simp_all add: np_setitem_Inr update_same)
  have "write_landmarks f32 cx cy i (Suc j) lms np = (None, np)"
  proof (rule Cons.IH)
    fix k assume "k < length lms"
    with Cons.prems [of "Suc k"]
    show "i < length (pxnorm np) \<and> Suc j + k < length (pxnorm np ! i) \<and>
      pxnorm np ! i ! (Suc j + k) = pxnorm_of f32 (lms ! k) \<and>
      i < length (px np) \<and> Suc j + k < length (px np ! i) \<and>
      px np ! i ! (Suc j + k) = px_of f32 cx cy (lms ! k)"
      by simp
  qed
  with a b show ?case by simp
qed

lemma write_landmarks_succeeds:
  "i < length (pxnorm np) \<Longrightarrow> j + length lms \<le> length (pxnorm np ! i) \<Longrightarrow>
   i < length (px np) \<Longrightarrow> j + length lms \<le> length (px np ! i) \<Longrightarrow>
   fst (write_landmarks f32 cx cy i j lms np) = None"
proof (induction lms arbitrary: j np)
  case Nil
  then show ?case by simp
next
  case (Cons lm lms)
  show ?case
  proof (cases rule: write_landmarks_Cons_cases [of np i j f32 lm cx cy lms])
    case fail1
    with Cons.prems show ?thesis by (simp add: np_setitem_Inl)
  next
    case (fail2 A)
    with Cons.prems show ?thesis by (simp add: np_setitem_Inl)
  next
    case (ok A B)
    have "fst (write_landmarks f32 cx cy i (Suc j) lms (np\<lparr>pxnorm := A, px := B\<rparr>)) = None"
      using ok(1,2) Cons.prems by (intro Cons.IH) (auto simp: np_setitem_Inr)
    with ok(3) show ?thesis by simp
  qed
qed

subsection \<open>The outer loop of \<^verbatim>\<open>detect\<close>\<close>

lemma write_faces_Cons_cases:
  obtains
    (fail) e np1 where "write_landmarks f32 cx cy i 0 face np = (Some e, np1)"
      "write_faces f32 cx cy i (face # faces) np = (Some e, np1)"
  | (ok) np1 where "write_landmarks f32 cx cy i 0 face np = (None, np1)"
      "write_faces f32 cx cy i (face # faces) np = write_faces f32 cx cy (Suc i) faces np1"
proof (cases "write_landmarks f32 cx cy i 0 face np")
  case (Pair e np1)
  with fail ok show ?thesis by (cases e) simp_all
qed

lemma write_faces_shape:
  "write_faces f32 cx cy i faces np = (e, np') \<Longrightarrow>
     map length (pxnorm np') = map length (pxnorm np) \<and> map length (px np') = map length (px np)"
proof (induction faces arbitrary: i np)
  case Nil
  then show ?case by simp
next
  case (Cons face faces)
  show ?case
  proof (cases rule: write_faces_Cons_cases [of f32 cx cy i face np faces])
    case (fail e1 np1)
    with Cons.prems write_landmarks_shape [OF fail(1)] show ?thesis by simp
  next
    case (ok np1)
    with Cons.prems have "write_faces f32 cx cy (Suc i) faces np1 = (e, np')" by simp
    from Cons.IH [OF this] write_landmarks_shape [OF ok(1)] show ?thesis by simp
  qed
qed

lemma write_faces_same_shape:
  "map length (pxnorm np) = map length (pxnorm np2) \<Longrightarrow>
   map length (px np) = map length (px np2) \<Longrightarrow>
   fst (write_faces f32 cx cy i faces np) = fst (write_faces f32 cx cy i faces np2)"
proof (induction faces arbitrary: i np np2)
  case Nil
  then show ?case by simp
next
  case (Cons face faces)
  from Cons.prems
  have same: "fst (write_landmarks f32 cx cy i 0 face np) = fst (write_landmarks f32 cx cy i 0 face np2)"
    by (rule write_landmarks_same_shape)
  show ?case
  proof (cases rule: write_faces_Cons_cases [of f32 cx cy i face np faces])
    case (fail e1 np1)
    with same show ?thesis
      by (cases rule: write_faces_Cons_cases [of f32 cx cy i face np2 faces]) simp_all
  next
    case (ok np1)
    show ?thesis
    proof (cases rule: write_faces_Cons_cases [of f32 cx cy i face np2 faces])
      case (fail e2 np3)
      with ok same show ?thesis by simp
    next
      case ok2: (ok np3)
      have "fst (write_faces f32 cx cy (Suc i) faces np1) = fst (write_faces f32 cx cy (Suc i) faces np3)"
        using write_landmarks_shape [OF ok(1)] write_landmarks_shape [OF ok2(1)] Cons.prems
        by (intro Cons.IH) simp_all
      with ok(2) ok2(2) show ?thesis by simp
    qed
  qed
qed

lemma write_faces_frame:
  "write_faces f32 cx cy i faces np = (e, np') \<Longrightarrow> r < i \<or> i + length faces \<le> r \<Longrightarrow>
     pxnorm np' ! r = pxnorm np ! r \<and> px np' ! r = px np ! r"
proof (induction faces arbitrary: i np)
  case Nil
  then show ?case by simp
next
  case (Cons face faces)
  from Cons.prems(2) have ne: "r \<noteq> i" by auto
  show ?case
  proof (cases rule: write_faces_Cons_cases [of f32 cx cy i face np faces])
    case (fail e1 np1)
    with Cons.prems(1) write_landmarks_frame [OF fail(1)] ne show ?thesis by simp
  next
    case (ok np1)
    with Cons.prems have "write_faces f32 cx cy (Suc i) faces np1 = (e, np')" by simp
    from Cons.IH [OF this] Cons.prems(2) write_landmarks_frame [OF ok(1)] ne
    show ?thesis by auto
  qed
qed

lemma write_faces_frame_tail:
  "write_faces f32 cx cy i faces np = (e, np') \<Longrightarrow> q < length faces \<Longrightarrow>
   length (faces ! q) \<le> k \<Longrightarrow>
     pxnorm np' ! (i + q) ! k = pxnorm np ! (i + q) ! k \<and> px np' ! (i + q) ! k = px np ! (i + q) ! k"
proof (induction faces arbitrary: i q np)
  case Nil
  then show ?case by simp
next
  case (Cons face faces)
  show ?case
  proof (cases q)
    case 0
    with Cons.prems(3) have k: "length face \<le> k" by simp
    show ?thesis
    proof (cases rule: write_faces_Cons_cases [of f32 cx cy i face np faces])
      case (fail e1 np1)
      with Cons.prems(1) write_landmarks_frame [OF fail(1)] k 0 show ?thesis by simp
    next
      case (ok np1)
      with Cons.prems have "write_faces f32 cx cy (Suc i) faces np1 = (e, np')" by simp
      from write_faces_frame [OF this, of i] write_landmarks_frame [OF ok(1)] k 0
      show ?thesis by simp
    qed
  next
    case (Suc q')
    with Cons.prems have q': "q' < length faces" "length (faces ! q') \<le> k" by simp_all
    show ?thesis
    proof (cases rule: write_faces_Cons_cases [of f32 cx cy i face np faces])
      case (fail e1 np1)
      with Cons.prems(1) write_landmarks_frame [OF fail(1)] Suc show ?thesis by simp
    next
      case (ok np1)
      with Cons.prems have "write_faces f32 cx cy (Suc i) faces np1 = (e, np')" by simp
      from Cons.IH [OF this q'] write_landmarks_frame [OF ok(1)] Suc
      show ?thesis by simp
    qed
  qed
qed

lemma write_faces_values:
  "write_faces f32 cx cy i faces np = (None, np') \<Longrightarrow> q < length faces \<Longrightarrow>
   k < length (faces ! q) \<Longrightarrow>
     i + q < length (pxnorm np') \<and> k < length (pxnorm np' ! (i + q)) \<and>
     pxnorm np' ! (i + q) ! k = pxnorm_of f32 (faces ! q ! k) \<and>
     i + q < length (px np') \<and> k < length (px np' ! (i + q)) \<and>
     px np' ! (i + q) ! k = px_of f32 cx cy (faces ! q ! k)"
proof (induction faces arbitrary: i q np)
  case Nil
  then show ?case by simp
next
  case (Cons face faces)
  show ?case
  proof (cases rule: write_faces_Cons_cases [of f32 cx cy i face np faces])
    case (fail e1 np1)
    with Cons.prems show ?thesis by simp
  next
    case (ok np1)
    with Cons.prems have rest: "write_faces f32 cx cy (Suc i) faces np1 = (None, np')" by simp
    show ?thesis
    proof (cases q)
      case 0
      with Cons.prems have "k < length face" by simp
      from write_landmarks_values [OF ok(1) this]
      have v: "i < length (pxnorm np1)" "k < length (pxnorm np1 ! i)"
        "pxnorm np1 ! i ! k = pxnorm_of f32 (face ! k)"
        "i < length (px np1)" "k < length (px np1 ! i)"
        "px np1 ! i ! k = px_of f32 cx cy (face ! k)"
        by simp_all
      from write_faces_frame [OF rest, of i]
      have rows: "pxnorm np' ! i = pxnorm np1 ! i" "px np' ! i = px np1 ! i" by simp_all
      from write_faces_shape [OF rest]
      have "length (pxnorm np') = length (pxnorm np1)" "length (px np') = length (px np1)"
        by (auto dest: same_shapeD(1))
      with v rows 0 show ?thesis by simp
    next
      case (Suc q')
      with Cons.prems have "q' < length faces" "k < length (faces ! q')" by simp_all
      from Cons.IH [OF rest this] Suc show ?thesis by simp
    qed
  qed
qed

lemma write_faces_fixed:
  "(\<And>q k. q < length faces \<Longrightarrow> k < length (faces ! q) \<Longrightarrow>
      i + q < length (pxnorm np) \<and> k < length (pxnorm np ! (i + q)) \<and>
      pxnorm np ! (i + q) ! k = pxnorm_of f32 (faces ! q ! k) \<and>
      i + q < length (px np) \<and> k < length (px np ! (i + q)) \<and>
      px np ! (i + q) ! k = px_of f32 cx cy (faces ! q ! k)) \<Longrightarrow>
   write_faces f32 cx cy i faces np = (None, np)"
proof (induction faces arbitrary: i)
  case Nil
  then show ?case by simp
next
  case (Cons face faces)
  have "write_landmarks f32 cx cy i 0 face np = (None, np)"
  proof (rule write_landmarks_fixed)
    fix k assume "k < length face"
    with Cons.prems [of 0 k]
    show "i < length (pxnorm np) \<and> 0 + k < length (pxnorm np ! i) \<and>
      pxnorm np ! i ! (0 + k) = pxnorm_of f32 (face ! k) \<and>
      i < length (px np) \<and> 0 + k < length (px np ! i) \<and>
      px np ! i ! (0 + k) = px_of f32 cx cy (face ! k)"
      by simp
  qed
  moreover have "write_faces f32 cx cy (Suc i) faces np = (None, np)"
  proof (rule Cons.IH)
    fix q k assume "q < length faces" "k < length (faces ! q)"
    with Cons.prems [of "Suc q" k]
    show "Suc i + q < length (pxnorm np) \<and> k < length (pxnorm np ! (Suc i + q)) \<and>
      pxnorm np ! (Suc i + q) ! k = pxnorm_of f32 (faces ! q ! k) \<and>
      Suc i + q < length (px np) \<and> k < length (px np ! (Suc i + q)) \<and>
      px np ! (Suc i + q) ! k = px_of f32 cx cy (faces ! q ! k)"
      by simp
  qed
  ultimately show ?case by simp
qed

lemma write_faces_idem:
  assumes "write_faces f32 cx cy i faces np = (None, np')"
  shows "write_faces f32 cx cy i faces np' = (None, np')"
  by (rule write_faces_fixed) (rule write_faces_values [OF assms])

lemma write_faces_succeeds:
  "i + length faces \<le> length (pxnorm np) \<Longrightarrow> i + length faces \<le> length (px np) \<Longrightarrow>
   (\<And>q. q < length faces \<Longrightarrow>
      length (faces ! q) \<le> length (pxnorm np ! (i + q)) \<and>
      length (faces ! q) \<le> length (px np ! (i + q))) \<Longrightarrow>
   fst (write_faces f32 cx cy i faces np) = None"
proof (induction faces arbitrary: i np)
  case Nil
  then show ?case by simp
next
  case (Cons face faces)
  from Cons.prems(1,2) Cons.prems(3) [of 0]
  have ok1: "fst (write_landmarks f32 cx cy i 0 face np) = None"
    by (intro write_landmarks_succeeds) simp_all
  show ?case
  proof (cases rule: write_faces_Cons_cases [of f32 cx cy i face np faces])
    case (fail e1 np1)
    with ok1 show ?thesis by simp
  next
    case (ok np1)
    note sh = write_landmarks_shape [OF ok(1)]
    have "fst (write_faces f32 cx cy (Suc i) faces np1) = None"
    proof (rule Cons.IH)
      show "Suc i + length faces \<le> length (pxnorm np1)"
        using Cons.prems(1) same_shapeD(1) [OF sh [THEN conjunct1]] by simp
      show "Suc i + length faces \<le> length (px np1)"
        using Cons.prems(2) same_shapeD(1) [OF sh [THEN conjunct2]] by simp
      fix q assume q: "q < length faces"
      with Cons.prems(1,2)
      have "Suc i + q < length (pxnorm np1)" "Suc i + q < length (px np1)"
        using same_shapeD(1) [OF sh [THEN conjunct1]] same_shapeD(1) [OF sh [THEN conjunct2]]
        by simp_all
      with same_shapeD(2) [OF sh [THEN conjunct1]] same_shapeD(2) [OF sh [THEN conjunct2]]
        Cons.prems(3) [of "Suc q"] q
      show "length (faces ! q) \<le> length (pxnorm np1 ! (Suc i + q)) \<and>
            length (faces ! q) \<le> length (px np1 ! (Suc i + q))"
        by simp
    qed
    with ok(2) show ?thesis by simp
  qed
qed

subsection \<open>The branches of \<^verbatim>\<open>detect\<close> and drawing without a surface\<close>

lemma detect_None: "detect process f32 None s = (None, s)"
  by (simp add: detect_def)

lemma detect_no_face:
  assumes "fst (process (face_mesh s) fr) = None \<or> fst (process (face_mesh s) fr) = Some []"
  shows "detect process f32 (Some fr) s =
    (None, no_face (s\<lparr>face_mesh := snd (process (face_mesh s) fr),
                      results := Some (fst (process (face_mesh s) fr))\<rparr>))"
  using assms by (auto simp: detect_def Let_def)

lemma detect_faces_ok:
  assumes "fst (process (face_mesh s) fr) = Some faces" "faces \<noteq> []"
    and "write_faces f32 (ctx_x (ctx s)) (ctx_y (ctx s)) 0 faces (face_mesh_np s) = (None, np')"
  shows "detect process f32 (Some fr) s =
    (None, s\<lparr>face_mesh := snd (process (face_mesh s) fr), results := Some (Some faces),
             face_mesh_np := np',
             ctx := (ctx s)\<lparr>s_face_mesh := set_from_nddict (s_face_mesh (ctx s)) np'\<rparr>,
             detected := int (length faces)\<rparr>)"
  using assms by (simp add: detect_def Let_def)

lemma detect_faces_err:
  assumes "fst (process (face_mesh s) fr) = Some faces" "faces \<noteq> []"
    and "write_faces f32 (ctx_x (ctx s)) (ctx_y (ctx s)) 0 faces (face_mesh_np s) = (Some e, np')"
  shows "detect process f32 (Some fr) s =
    (Some e, s\<lparr>face_mesh := snd (process (face_mesh s) fr), results := Some (Some faces),
               face_mesh_np := np'\<rparr>)"
  using assms by (simp add: detect_def Let_def)

text \<open>The four ways through \<^verbatim>\<open>detect\<close>.\<close>

lemma detect_cases:
  obtains
    (null) "frame = None" "detect process f32 frame s = (None, s)"
  | (no_face) fr where "frame = Some fr"
      "fst (process (face_mesh s) fr) = None \<or> fst (process (face_mesh s) fr) = Some []"
      "detect process f32 frame s =
         (None, no_face (s\<lparr>face_mesh := snd (process (face_mesh s) fr),
                           results := Some (fst (process (face_mesh s) fr))\<rparr>))"
  | (err) fr faces e np' where "frame = Some fr"
      "fst (process (face_mesh s) fr) = Some faces" "faces \<noteq> []"
      "write_faces f32 (ctx_x (ctx s)) (ctx_y (ctx s)) 0 faces (face_mesh_np s) = (Some e, np')"
      "detect process f32 frame s =
         (Some e, s\<lparr>face_mesh := snd (process (face_mesh s) fr), results := Some (Some faces),
                    face_mesh_np := np'\<rparr>)"
  | (ok) fr faces np' where "frame = Some fr"
      "fst (process (face_mesh s) fr) = Some faces" "faces \<noteq> []"
      "write_faces f32 (ctx_x (ctx s)) (ctx_y (ctx s)) 0 faces (face_mesh_np s) = (None, np')"
      "detect process f32 frame s =
         (None, s\<lparr>face_mesh := snd (process (face_mesh s) fr), results := Some (Some faces),
                  face_mesh_np := np',
                  ctx := (ctx s)\<lparr>s_face_mesh := set_from_nddict (s_face_mesh (ctx s)) np'\<rparr>,
                  detected := int (length faces)\<rparr>)"
proof (cases frame)
  case None
  with null show ?thesis by (simp add: detect_None)
next
  case (Some fr)
  show ?thesis
  proof (cases "fst (process (face_mesh s) fr) = None \<or> fst (process (face_mesh s) fr) = Some []")
    case True
    with Some no_face detect_no_face [of process s fr f32] show ?thesis by simp
  next
    case False
    then obtain faces where f: "fst (process (face_mesh s) fr) = Some faces" "faces \<noteq> []"
      by auto
    show ?thesis
    proof (cases "write_faces f32 (ctx_x (ctx s)) (ctx_y (ctx s)) 0 faces (face_mesh_np s)")
      case (Pair eo np')
      show ?thesis
      proof (cases eo)
        case None
        with Pair Some f ok detect_faces_ok [of process s fr faces f32 np'] show ?thesis by simp
      next
        case (Some e)
        with Pair \<open>frame = Some fr\<close> f err detect_faces_err [of process s fr faces f32 e np'] show ?thesis by simp
      qed
    qed
  qed
qed

lemma px_call_no_px: "self_px s = None \<Longrightarrow> px_call c s = Inl AttributeError"
  by (simp add: px_call_def)

lemma draw_lm_no_px: "self_px s = None \<Longrightarrow> \<exists>e. draw_lm cast face lm r col s = Inl e"
  by (simp add: draw_lm_def px_call_no_px split: sum.splits)

lemma draw_conn_no_px: "self_px s = None \<Longrightarrow> \<exists>e. draw_conn cast face conn col s = Inl e"
  by (simp add: draw_conn_def px_call_no_px split: sum.splits)

lemma for_each_fail_state:
  "(\<And>i. \<exists>e. body i s = Inl e) \<Longrightarrow> snd (for_each body xs s) = s"
proof (cases xs)
  case Nil
  then show ?thesis by simp
next
  case (Cons x rest)
  assume "\<And>i. \<exists>e. body i s = Inl e"
  then obtain e where "body x s = Inl e" by blast
  with Cons show ?thesis by simp
qed

lemma draw_no_px_state: "self_px s = None \<Longrightarrow> snd (draw cast s) = s"
proof -
  assume n: "self_px s = None"
  have a: "snd (draw_face_lms cast 5 (1, 1, 1, 1) s) = s"
    unfolding draw_face_lms_def
    by (rule for_each_fail_state) (simp add: draw_lm_no_px [OF n] split: prod.splits)
  have b: "snd (draw_face_conns cast (1, 1, 1, 1) s) = s"
    unfolding draw_face_conns_def
    by (rule for_each_fail_state) (simp add: draw_conn_no_px [OF n] split: prod.splits)
  show ?thesis
  proof (cases "draw_face_lms cast 5 (1, 1, 1, 1) s")
    case (Pair eo s')
    with a have "s' = s" by simp
    with Pair b show ?thesis by (cases eo) (simp_all add: draw_def)
  qed
qed

subsection \<open>Invariants\<close>

lemma init_tables_ok: "tables_ok V (init V kw cx cy m)"
  by (simp add: tables_ok_def init_def Let_def fill_by_index_eq fill_by_enumerate_eq)

lemma init_shapes_ok: "shapes_ok (init V kw cx cy m)"
  by (simp add: shapes_ok_def init_def Let_def zeros_nddict_def np_zeros_def)

lemma init_no_px: "self_px (init V kw cx cy m) = None"
  by (simp add: init_def Let_def)

lemma no_face_shapes_ok: "shapes_ok s \<Longrightarrow> shapes_ok (no_face s)"
  by (simp add: shapes_ok_def no_face_def state_fill_def comp_def)

lemma detect_tables_ok: "tables_ok V s \<Longrightarrow> tables_ok V (snd (detect process f32 frame s))"
  by (cases rule: detect_cases [of frame process f32 s])
    (simp_all add: tables_ok_def no_face_def)

lemma detect_no_px: "self_px s = None \<Longrightarrow> self_px (snd (detect process f32 frame s)) = None"
  by (cases rule: detect_cases [of frame process f32 s]) (simp_all add: no_face_def)

lemma detect_shapes_ok:
  assumes "shapes_ok s"
  shows "shapes_ok (snd (detect process f32 frame s))"
proof (cases rule: detect_cases [of frame process f32 s])
  case null
  with assms show ?thesis by simp
next
  case (no_face fr)
  have "shapes_ok (s\<lparr>face_mesh := snd (process (face_mesh s) fr),
                     results := Some (fst (process (face_mesh s) fr))\<rparr>)"
    using assms by (simp add: shapes_ok_def)
  from no_face_shapes_ok [OF this] no_face(3) show ?thesis by simp
next
  case (err fr faces e np')
  from write_faces_shape [OF err(4)] assms err(5) show ?thesis
    by (simp add: shapes_ok_def)
next
  case (ok fr faces np')
  from write_faces_shape [OF ok(4)] assms ok(5) show ?thesis
    by (simp add: shapes_ok_def set_from_nddict_def)
qed

lemma call_cases:
  obtains (run) "call process f32 frame s = detect process f32 frame (s\<lparr>upd := (upd s)\<lparr>counter := 0\<rparr>\<rparr>)"
  | (skip) c where "call process f32 frame s = (None, s\<lparr>upd := (upd s)\<lparr>counter := c\<rparr>\<rparr>)"
proof (cases "count_rate (upd s) \<le> Suc (counter (upd s))")
  case True
  then have "call process f32 frame s = detect process f32 frame (s\<lparr>upd := (upd s)\<lparr>counter := 0\<rparr>\<rparr>)"
    unfolding call_def Let_def by (rule if_P)
  then show ?thesis by (rule run)
next
  case False
  then have "call process f32 frame s = (None, s\<lparr>upd := (upd s)\<lparr>counter := Suc (counter (upd s))\<rparr>\<rparr>)"
    unfolding call_def Let_def by (rule if_not_P)
  then show ?thesis by (rule skip)
qed

lemma call_tables_ok: 
  assumes "tables_ok V s" shows "tables_ok V (snd (call process f32 frame s))"
proof (cases rule: call_cases [of process f32 frame s])
  case run
  have "tables_ok V (s\<lparr>upd := (upd s)\<lparr>counter := 0\<rparr>\<rparr>)"
    using assms by (simp add: tables_ok_def)
  from detect_tables_ok [OF this] run show ?thesis by simp
next
  case (skip c)
  with assms show ?thesis by (simp add: tables_ok_def)
qed

lemma call_shapes_ok: 
  assumes "shapes_ok s" shows "shapes_ok (snd (call process f32 frame s))"
proof (cases rule: call_cases [of process f32 frame s])
  case run
  have "shapes_ok (s\<lparr>upd := (upd s)\<lparr>counter := 0\<rparr>\<rparr>)"
    using assms by (simp add: shapes_ok_def)
  from detect_shapes_ok [OF this] run show ?thesis by simp
next
  case (skip c)
  with assms show ?thesis by (simp add: shapes_ok_def)
qed

lemma call_no_px: 
  assumes "self_px s = None" shows "self_px (snd (call process f32 frame s)) = None"
proof (cases rule: call_cases [of process f32 frame s])
  case run
  have "self_px (s\<lparr>upd := (upd s)\<lparr>counter := 0\<rparr>\<rparr>) = None"
    using assms by simp
  from detect_no_px [OF this] run show ?thesis by simp
next
  case (skip c)
  with assms show ?thesis by simp
qed

lemma reachable_inv:
  "reachable process f32 cast V s \<Longrightarrow> tables_ok V s \<and> shapes_ok s \<and> self_px s = None"
proof (induction rule: reachable.induct)
  case (r_init kw cx cy m)
  show ?case by (simp add: init_tables_ok init_shapes_ok init_no_px)
next
  case (r_detect s frame)
  then show ?case by (simp add: detect_tables_ok detect_shapes_ok detect_no_px)
next
  case (r_draw s)
  then show ?case by (simp add: draw_no_px_state)
next
  case (r_call s frame)
  then show ?case by (simp add: call_tables_ok call_shapes_ok call_no_px)
qed

lemma ndrange_first: "0 < d \<Longrightarrow> 0 < n \<Longrightarrow> \<exists>rest. ndrange d n = (0, 0) # rest"
proof -
  assume "0 < d" "0 < n"
  then have "[0..<nat d] = 0 # [1..<nat d]" "[0..<n] = 0 # [1..<n]"
    by (simp_all add: upt_conv_Cons)
  then show ?thesis by (simp add: ndrange_def)
qed


lemma draw_no_px_attribute_error:
  assumes "self_px s = None" "0 < detected s" "0 < n_points s"
    and "px (s_face_mesh (ctx s)) \<noteq> []" "px (s_face_mesh (ctx s)) ! 0 \<noteq> []"
  shows "draw cast s = (Some AttributeError, s)"
proof -
  from ndrange_first [OF assms(2,3)] obtain rest
    where r: "ndrange (detected s) (n_points s) = (0, 0) # rest" ..
  from assms(1,4,5) have "draw_lm cast 0 0 5 (1, 1, 1, 1) s = Inl AttributeError"
    by (simp add: draw_lm_def ti_get2_def ti_get_def px_call_no_px)
  with r have "draw_face_lms cast 5 (1, 1, 1, 1) s = (Some AttributeError, s)"
    by (simp add: draw_face_lms_def)
  with assms(2) show ?thesis by (simp add: draw_def)
qed

lemma shape_replicateD:
  assumes "map length A = replicate f n"
  shows "length A = f" and "r < f \<Longrightarrow> length (A ! r) = n"
proof -
  from assms show l: "length A = f" by (metis length_map length_replicate)
  show "r < f \<Longrightarrow> length (A ! r) = n"
    using assms l by (metis nth_map nth_replicate)
qed

lemma shapes_ok_store_nonempty:
  assumes "shapes_ok s" "0 < max_num_faces (config s)"
  shows "px (s_face_mesh (ctx s)) \<noteq> []" "px (s_face_mesh (ctx s)) ! 0 \<noteq> []"
proof -
  from assms have m: "map length (px (s_face_mesh (ctx s))) = replicate (max_num_faces (config s)) 478"
    by (simp add: shapes_ok_def)
  from shape_replicateD(1) [OF m] assms(2) show "px (s_face_mesh (ctx s)) \<noteq> []" by auto
  from shape_replicateD(2) [OF m assms(2)] show "px (s_face_mesh (ctx s)) ! 0 \<noteq> []" by auto
qed

subsection \<open>What a successful detection stores\<close>

lemma write_faces_in_shape:
  assumes "map length (pxnorm np) = replicate F n" "map length (px np) = replicate F n"
    and "length faces \<le> F" and "\<And>q. q < length faces \<Longrightarrow> length (faces ! q) \<le> n"
  shows "fst (write_faces f32 cx cy 0 faces np) = None"
proof (rule write_faces_succeeds)
  from shape_replicateD(1) [OF assms(1)] assms(3) show "0 + length faces \<le> length (pxnorm np)"
    by simp
  from shape_replicateD(1) [OF assms(2)] assms(3) show "0 + length faces \<le> length (px np)"
    by simp
  fix q assume q: "q < length faces"
  with assms(3) have "q < F" by simp
  from shape_replicateD(2) [OF assms(1) this] shape_replicateD(2) [OF assms(2) this] assms(4) [OF q]
  show "length (faces ! q) \<le> length (pxnorm np ! (0 + q)) \<and>
        length (faces ! q) \<le> length (px np ! (0 + q))"
    by simp
qed

lemma overwrite_eqI:
  assumes "length ys = length xs" "length vs \<le> length xs"
    and "\<And>k. k < length vs \<Longrightarrow> ys ! k = vs ! k"
    and "\<And>k. length vs \<le> k \<Longrightarrow> ys ! k = xs ! k"
  shows "ys = vs @ drop (length vs) xs"
proof (rule nth_equalityI)
  from assms(1,2) show "length ys = length (vs @ drop (length vs) xs)" by simp
  fix k assume "k < length ys"
  with assms show "ys ! k = (vs @ drop (length vs) xs) ! k"
    by (cases "k < length vs") (simp_all add: nth_append)
qed

lemma write_faces_row:
  assumes ok: "write_faces f32 cx cy 0 faces np = (None, np')" and r: "r < length faces"
    and inA: "r < length (pxnorm np)" and inB: "r < length (px np)"
  shows "pxnorm np' ! r = map (pxnorm_of f32) (faces ! r) @ drop (length (faces ! r)) (pxnorm np ! r)"
    and "px np' ! r = map (px_of f32 cx cy) (faces ! r) @ drop (length (faces ! r)) (px np ! r)"
proof -
  note sh = write_faces_shape [OF ok]
  have lA: "length (pxnorm np' ! r) = length (pxnorm np ! r)"
    using same_shapeD [OF sh [THEN conjunct1]] inA by simp
  have lB: "length (px np' ! r) = length (px np ! r)"
    using same_shapeD [OF sh [THEN conjunct2]] inB by simp
  have v: "k < length (pxnorm np' ! r) \<and> pxnorm np' ! r ! k = pxnorm_of f32 (faces ! r ! k) \<and>
           k < length (px np' ! r) \<and> px np' ! r ! k = px_of f32 cx cy (faces ! r ! k)"
    if "k < length (faces ! r)" for k
    using write_faces_values [OF ok r that] by simp
  have le: "length (faces ! r) \<le> length (pxnorm np' ! r) \<and> length (faces ! r) \<le> length (px np' ! r)"
  proof (cases "faces ! r")
    case Nil
    then show ?thesis by simp
  next
    case (Cons a list)
    then have "length (faces ! r) - 1 < length (faces ! r)" by simp
    from v [OF this] show ?thesis by linarith
  qed
  have t: "pxnorm np' ! r ! k = pxnorm np ! r ! k \<and> px np' ! r ! k = px np ! r ! k"
    if "length (faces ! r) \<le> k" for k
    using write_faces_frame_tail [OF ok r that] by simp
  show "pxnorm np' ! r = map (pxnorm_of f32) (faces ! r) @ drop (length (faces ! r)) (pxnorm np ! r)"
    using overwrite_eqI [of "pxnorm np' ! r" "pxnorm np ! r" "map (pxnorm_of f32) (faces ! r)"]
      lA le v t by simp
  show "px np' ! r = map (px_of f32 cx cy) (faces ! r) @ drop (length (faces ! r)) (px np ! r)"
    using overwrite_eqI [of "px np' ! r" "px np ! r" "map (px_of f32 cx cy) (faces ! r)"]
      lB le v t by simp
qed

lemma write_faces_full:
  assumes ok: "write_faces f32 cx cy 0 faces np = (None, np')"
    and shA: "map length (pxnorm np) = replicate F n" and shB: "map length (px np) = replicate F n"
    and K: "length faces \<le> F" and full: "\<And>q. q < length faces \<Longrightarrow> length (faces ! q) = n"
  shows "pxnorm np' = map (map (pxnorm_of f32)) faces @ drop (length faces) (pxnorm np)"
    and "px np' = map (map (px_of f32 cx cy)) faces @ drop (length faces) (px np)"
proof -
  note sh = write_faces_shape [OF ok]
  note lA = shape_replicateD [OF shA] and lB = shape_replicateD [OF shB]
  show "pxnorm np' = map (map (pxnorm_of f32)) faces @ drop (length faces) (pxnorm np)"
  proof (rule overwrite_eqI [of _ _ "map (map (pxnorm_of f32)) faces", simplified])
    from same_shapeD(1) [OF sh [THEN conjunct1]] show "length (pxnorm np') = length (pxnorm np)" .
    from K lA(1) show "length faces \<le> length (pxnorm np)" by simp
    fix r assume r: "r < length faces"
    with K lA(1) lB(1) have "r < length (pxnorm np)" "r < length (px np)" "r < F" by simp_all
    from write_faces_row(1) [OF ok r this(1,2)] full [OF r] lA(2) [OF \<open>r < F\<close>]
    show "pxnorm np' ! r = map (pxnorm_of f32) (faces ! r)" by simp
  next
    fix r assume "length faces \<le> r"
    with write_faces_frame [OF ok, of r] show "pxnorm np' ! r = pxnorm np ! r" by simp
  qed
  show "px np' = map (map (px_of f32 cx cy)) faces @ drop (length faces) (px np)"
  proof (rule overwrite_eqI [of _ _ "map (map (px_of f32 cx cy)) faces", simplified])
    from same_shapeD(1) [OF sh [THEN conjunct2]] show "length (px np') = length (px np)" .
    from K lB(1) show "length faces \<le> length (px np)" by simp
    fix r assume r: "r < length faces"
    with K lA(1) lB(1) have "r < length (pxnorm np)" "r < length (px np)" "r < F" by simp_all
    from write_faces_row(2) [OF ok r this(1,2)] full [OF r] lB(2) [OF \<open>r < F\<close>]
    show "px np' ! r = map (px_of f32 cx cy) (faces ! r)" by simp
  next
    fix r assume "length faces \<le> r"
    with write_faces_frame [OF ok, of r] show "px np' ! r = px np ! r" by simp
  qed
qed

subsection \<open>Outcomes of \<^verbatim>\<open>detect\<close>\<close>

lemma detect_okD:
  assumes "detect process f32 (Some fr) s = (None, s')"
    and "fst (process (face_mesh s) fr) = Some faces" and "faces \<noteq> []"
  obtains np' where
    "write_faces f32 (ctx_x (ctx s)) (ctx_y (ctx s)) 0 faces (face_mesh_np s) = (None, np')"
    "s' = s\<lparr>face_mesh := snd (process (face_mesh s) fr), results := Some (Some faces),
             face_mesh_np := np',
             ctx := (ctx s)\<lparr>s_face_mesh := set_from_nddict (s_face_mesh (ctx s)) np'\<rparr>,
             detected := int (length faces)\<rparr>"
proof (cases "write_faces f32 (ctx_x (ctx s)) (ctx_y (ctx s)) 0 faces (face_mesh_np s)")
  case (Pair eo np')
  show ?thesis
  proof (cases eo)
    case None
    with Pair detect_faces_ok [of process s fr faces f32 np'] assms that show ?thesis by simp
  next
    case (Some e)
    with Pair detect_faces_err [of process s fr faces f32 e np'] assms show ?thesis by simp
  qed
qed

lemma detect_config: "config (snd (detect process f32 frame s)) = config s"
  by (cases rule: detect_cases [of frame process f32 s]) (simp_all add: no_face_def)

lemma detect_succeeds:
  assumes "shapes_ok s" and "fst (process (face_mesh s) fr) = Some faces" and "faces \<noteq> []"
    and "length faces \<le> max_num_faces (config s)"
    and "\<And>q. q < length faces \<Longrightarrow> length (faces ! q) \<le> 478"
  obtains np' where
    "write_faces f32 (ctx_x (ctx s)) (ctx_y (ctx s)) 0 faces (face_mesh_np s) = (None, np')"
    "detect process f32 (Some fr) s =
       (None, s\<lparr>face_mesh := snd (process (face_mesh s) fr), results := Some (Some faces),
                face_mesh_np := np',
                ctx := (ctx s)\<lparr>s_face_mesh := set_from_nddict (s_face_mesh (ctx s)) np'\<rparr>,
                detected := int (length faces)\<rparr>)"
proof -
  from assms(1)
  have "map length (pxnorm (face_mesh_np s)) = replicate (max_num_faces (config s)) 478"
    "map length (px (face_mesh_np s)) = replicate (max_num_faces (config s)) 478"
    by (simp_all add: shapes_ok_def)
  from write_faces_in_shape [OF this assms(4,5)]
  have "fst (write_faces f32 (ctx_x (ctx s)) (ctx_y (ctx s)) 0 faces (face_mesh_np s)) = None"
    by simp
  then obtain np' where
    w: "write_faces f32 (ctx_x (ctx s)) (ctx_y (ctx s)) 0 faces (face_mesh_np s) = (None, np')"
    by (cases "write_faces f32 (ctx_x (ctx s)) (ctx_y (ctx s)) 0 faces (face_mesh_np s)") simp
  from detect_faces_ok [of process s fr faces f32 np'] assms(2,3) w
  have "detect process f32 (Some fr) s =
       (None, s\<lparr>face_mesh := snd (process (face_mesh s) fr), results := Some (Some faces),
                face_mesh_np := np',
                ctx := (ctx s)\<lparr>s_face_mesh := set_from_nddict (s_face_mesh (ctx s)) np'\<rparr>,
                detected := int (length faces)\<rparr>)"
    by simp
  with w that show ?thesis by blast
qed

lemma fill_in_shape:
  assumes "map length A = replicate f n"
  shows "map (map (\<lambda>_. z)) A = replicate f (replicate n z)"
proof (rule nth_equalityI)
  from shape_replicateD(1) [OF assms] show "length (map (map (\<lambda>_. z)) A) = length (replicate f (replicate n z))"
    by simp
  fix r assume "r < length (map (map (\<lambda>_. z)) A)"
  then have r: "r < length A" by simp
  with shape_replicateD(1) [OF assms] have "r < f" by simp
  from shape_replicateD(2) [OF assms this] r \<open>r < f\<close>
  show "map (map (\<lambda>_. z)) A ! r = replicate f (replicate n z) ! r"
    by (simp add: map_replicate_const)
qed

lemma mesh_example_shapes_ok: "shapes_ok mesh_example"
  by (simp add: mesh_example_def init_shapes_ok)

lemma mesh_example_max_faces: "max_num_faces (config mesh_example) = 1"
  by (simp add: mesh_example_def init_def Let_def kwargs_default_def kw_get_def)

subsection \<open>The example instances\<close>

lemma replay_detect_ok:
  assumes "shapes_ok s" and "faces \<noteq> []" and "length faces \<le> max_num_faces (config s)"
    and "\<forall>face\<in>set faces. length face \<le> 478"
  shows "detect replay f32 (Some (Some faces)) s =
           (None, snd (detect replay f32 (Some (Some faces)) s))"
    and "detected (snd (detect replay f32 (Some (Some faces)) s)) = int (length faces)"
proof -
  have p: "fst (replay (face_mesh s) (Some faces)) = Some faces" by (simp add: replay_def)
  have q: "\<And>q. q < length faces \<Longrightarrow> length (faces ! q) \<le> 478"
    using assms(4) by simp
  obtain np' where
    d: "detect replay f32 (Some (Some faces)) s =
       (None, s\<lparr>face_mesh := snd (replay (face_mesh s) (Some faces)), results := Some (Some faces),
                face_mesh_np := np',
                ctx := (ctx s)\<lparr>s_face_mesh := set_from_nddict (s_face_mesh (ctx s)) np'\<rparr>,
                detected := int (length faces)\<rparr>)"
    by (rule detect_succeeds [of s replay "Some faces" faces f32, OF assms(1) p assms(2,3) q])
  from d show "detect replay f32 (Some (Some faces)) s =
           (None, snd (detect replay f32 (Some (Some faces)) s))" by simp
  from d show "detected (snd (detect replay f32 (Some (Some faces)) s)) = int (length faces)"
    by simp
qed

lemma mesh_example_dims: "ctx_x (ctx mesh_example) = 640" "ctx_y (ctx mesh_example) = 480"
  by (simp_all add: mesh_example_def init_def Let_def)

lemma mesh_example_np: "face_mesh_np mesh_example = zeros_nddict 1 478"
  by (simp add: mesh_example_def init_def Let_def kwargs_default_def kw_get_def)

lemma mesh_two_shapes_ok: "shapes_ok mesh_two"
  by (simp add: mesh_two_def init_shapes_ok)

lemma mesh_two_max_faces: "max_num_faces (config mesh_two) = 2"
  by (simp add: mesh_two_def init_def Let_def kwargs_default_def kw_get_def)

lemma mesh_two_dims: "ctx_x (ctx mesh_two) = 640" "ctx_y (ctx mesh_two) = 480"
  by (simp_all add: mesh_two_def init_def Let_def)

lemma mesh_one_face_ok:
  "detect replay id (Some (Some [[lm_example]])) mesh_example = (None, mesh_one_face)"
  "detected mesh_one_face = 1"
  unfolding mesh_one_face_def
  using replay_detect_ok [OF mesh_example_shapes_ok, of "[[lm_example]]" id]
  by (simp_all add: mesh_example_max_faces)

lemma mesh_one_face_shapes_ok: "shapes_ok mesh_one_face"
  unfolding mesh_one_face_def by (rule detect_shapes_ok [OF mesh_example_shapes_ok])

lemma mesh_one_face_max_faces: "max_num_faces (config mesh_one_face) = 1"
  unfolding mesh_one_face_def by (simp add: detect_config mesh_example_max_faces)

lemma mesh_two_faces_ok:
  "detect replay id (Some (Some [[lm_example], [lm_example]])) mesh_two = (None, mesh_two_faces)"
  "detected mesh_two_faces = 2"
  unfolding mesh_two_faces_def
  using replay_detect_ok [OF mesh_two_shapes_ok, of "[[lm_example], [lm_example]]" id]
  by (simp_all add: mesh_two_max_faces)

lemma mesh_two_faces_shapes_ok: "shapes_ok mesh_two_faces"
  unfolding mesh_two_faces_def by (rule detect_shapes_ok [OF mesh_two_shapes_ok])

lemma mesh_two_faces_max_faces: "max_num_faces (config mesh_two_faces) = 2"
  unfolding mesh_two_faces_def by (simp add: detect_config mesh_two_max_faces)

subsection \<open>Counting rows, and the index range of the line loop\<close>

lemma length_concat_rows:
  "(\<forall>xs\<in>set xss. length xs = n) \<Longrightarrow> length (concat xss) = length xss * n"
  by (induction xss) simp_all

lemma singleton_rows: "length xs = 1 \<Longrightarrow> xs = [xs ! 0]"
  by (cases xs) simp_all

lemma draw_face_conns_index_outside_table:
  assumes "0 < detected s" and "length (contours_conns s) < n_points s"
  shows "(0, int (length (contours_conns s))) \<in> set (ndrange (detected s) (n_points s))"
    and "draw_conn cast 0 (int (length (contours_conns s))) col s = Inl OutOfBounds"
proof -
  from assms(1) have "(0::int) \<in> int ` {0..<nat (detected s)}"
    by (intro image_eqI [of _ _ 0]) simp_all
  with assms(2) show "(0, int (length (contours_conns s))) \<in> set (ndrange (detected s) (n_points s))"
    by (simp add: ndrange_def)
  show "draw_conn cast 0 (int (length (contours_conns s))) col s = Inl OutOfBounds"
    by (simp add: draw_conn_def ti_get_def)
qed

subsection \<open>Evaluating the conversion to \<^verbatim>\<open>float32\<close>\<close>

lemma bit_length_bounds: "2 ^ k \<le> m \<Longrightarrow> m < 2 ^ Suc k \<Longrightarrow> bit_length m = Suc k"
proof (induction k arbitrary: m)
  case 0
  then have "m = 1" by simp
  then show ?case by (simp add: bit_length.simps [of "Suc 0"] bit_length.simps [of 0])
next
  case (Suc k)
  from Suc.prems have "2 ^ k \<le> m div 2" "m div 2 < 2 ^ Suc k" by auto
  from Suc.IH [OF this] have ih: "bit_length (m div 2) = Suc k" .
  have "(0::nat) < 2 ^ Suc k" by simp
  with Suc.prems(1) have "m \<noteq> 0" by linarith
  with ih show ?case by (subst bit_length.simps) simp
qed

lemma np_float32_normal:
  assumes k: "k \<le> 149" and lo: "2 ^ 23 \<le> v * 2 ^ k" and hi: "v * 2 ^ k < 2 ^ 24"
  shows "np_float32 v = of_int (round_half_even (v * 2 ^ k)) / 2 ^ k"
proof -
  define u where "u = 149 - k"
  with k have p: "(2::real) ^ 149 = 2 ^ k * 2 ^ u"
    by (simp add: power_add [symmetric])
  from lo have "0 < v * 2 ^ k" by (rule less_le_trans [rotated]) simp
  then have v: "0 < v" by (simp add: zero_less_mult_iff)
  then have "\<bar>v\<bar> = v" by simp
  then have n: "\<bar>v\<bar> * 2 ^ 149 = (v * 2 ^ k) * 2 ^ u"
    unfolding p by (simp only: mult.assoc)
  have lo': "(2::real) ^ (23 + u) \<le> (v * 2 ^ k) * 2 ^ u"
    using lo by (simp add: power_add)
  have hi': "(v * 2 ^ k) * 2 ^ u < 2 ^ (24 + u)"
    using hi by (simp add: power_add)
  have "(2::int) ^ (23 + u) \<le> \<lfloor>(v * 2 ^ k) * 2 ^ u\<rfloor>"
    using lo' by (simp add: le_floor_iff)
  moreover have "\<lfloor>(v * 2 ^ k) * 2 ^ u\<rfloor> < (2::int) ^ (24 + u)"
    using hi' by (simp add: floor_less_iff)
  ultimately have "2 ^ (23 + u) \<le> nat \<lfloor>(v * 2 ^ k) * 2 ^ u\<rfloor>"
    "nat \<lfloor>(v * 2 ^ k) * 2 ^ u\<rfloor> < 2 ^ Suc (23 + u)"
    by (simp_all add: le_nat_iff nat_less_iff)
  from bit_length_bounds [OF this]
  have bl: "bit_length (nat \<lfloor>(v * 2 ^ k) * 2 ^ u\<rfloor>) - 24 = u" by simp
  have "np_float32 v = sgn v * (of_int (round_half_even ((v * 2 ^ k) * 2 ^ u / 2 ^ u)) * 2 ^ u
          / 2 ^ 149)"
    unfolding np_float32_def Let_def n bl ..
  also have "\<dots> = of_int (round_half_even (v * 2 ^ k)) / 2 ^ k"
    unfolding p using v by simp
  finally show ?thesis .
qed

lemma np_float32_448: "np_float32 (58720255 / 131072) = 448"
proof -
  have "round_half_even (58720255 / 131072 * 2 ^ 15) = 14680064"
    by (simp add: round_half_even_def Let_def)
  with np_float32_normal [of 15 "58720255 / 131072"] show ?thesis by simp
qed

lemma np_float32_240: "np_float32 240 = 240"
proof -
  have "round_half_even (240 * 2 ^ 16) = 15728640"
    by (simp add: round_half_even_def Let_def)
  with np_float32_normal [of 16 240] show ?thesis by simp
qed

lemma mesh_rounded_ok:
  "detect replay np_float32 (Some (Some [[lm_near_03]])) mesh_example = (None, mesh_rounded)"
  unfolding mesh_rounded_def
  using replay_detect_ok(1) [OF mesh_example_shapes_ok, of "[[lm_near_03]]" np_float32]
  by (simp add: mesh_example_max_faces)

lemma px_near_03:
  "ctx_x (ctx mesh_example) * (1 - lm_x lm_near_03) = 58720255 / 131072"
  "ctx_y (ctx mesh_example) * (1 - lm_y lm_near_03) = 240"
  by (simp_all add: mesh_example_dims lm_near_03_def)

lemma px_of_near_03:
  "px_of np_float32 (ctx_x (ctx mesh_example)) (ctx_y (ctx mesh_example)) lm_near_03 = (448, 240)"
  unfolding px_of_def px_near_03 by (simp add: np_float32_448 np_float32_240)

section \<open>The claims\<close>

text \<open>
  C7. \<^verbatim>\<open>detect\<close> with a null frame returns at once: no exception, the detector is not
  invoked, and the instance, the numpy arrays, the shared store and the detected count
  are all as they were.
\<close>

theorem detect_null_frame: "detect process f32 None s = (None, s)"
  by (simp add: detect_def)

text \<open>
  C6. When the detected count is zero or negative, \<^verbatim>\<open>draw\<close> makes no circle or line call:
  it returns without an error and leaves the whole state, the surface included, as it was.
\<close>

theorem draw_skipped_without_detection: "detected s \<le> 0 \<Longrightarrow> draw cast s = (None, s)"
  by (simp add: draw_def)

theorem draw_skipped_without_detection_witness:
  "detected mesh_example \<le> 0 \<and> draw floor mesh_example = (None, mesh_example)"
proof -
  have h: "detected mesh_example \<le> 0" by (simp add: mesh_example_def init_def Let_def)
  from draw_skipped_without_detection [OF h, of floor] h show ?thesis by simp
qed

text \<open>
  C8. In every reachable state, hence after construction and after any sequence of
  \<^verbatim>\<open>detect\<close>, \<^verbatim>\<open>draw\<close> and \<^verbatim>\<open>__call__\<close>, each of the ten connection tables holds the
  vendor's list, entry by entry.
\<close>

theorem connection_tables_constant:
  assumes "reachable process f32 cast V s"
  shows "lips_conns s = map FaceMeshConnection (FACEMESH_LIPS V) \<and>
     left_eye_conns s = map FaceMeshConnection (FACEMESH_LEFT_EYE V) \<and>
     left_iris_conns s = map FaceMeshConnection (FACEMESH_LEFT_IRIS V) \<and>
     left_eyebrow_conns s = map FaceMeshConnection (FACEMESH_LEFT_EYEBROW V) \<and>
     right_eye_conns s = map FaceMeshConnection (FACEMESH_RIGHT_EYE V) \<and>
     right_eyebrow_conns s = map FaceMeshConnection (FACEMESH_RIGHT_EYEBROW V) \<and>
     right_iris_conns s = map FaceMeshConnection (FACEMESH_RIGHT_IRIS V) \<and>
     face_oval_conns s = map FaceMeshConnection (FACEMESH_FACE_OVAL V) \<and>
     nose_conns s = map FaceMeshConnection (FACEMESH_NOSE V) \<and>
     contours_conns s = map FaceMeshConnection (FACEMESH_CONTOURS V)"
  using reachable_inv [OF assms] by (simp add: tables_ok_def)

theorem connection_tables_constant_witness:
  "reachable (replay :: unit \<Rightarrow> real face list option \<Rightarrow> _) id floor vendor_example
     (snd (call replay id (Some None) (snd (draw floor mesh_example)))) \<and>
   contours_conns (snd (call (replay :: unit \<Rightarrow> real face list option \<Rightarrow> _) id (Some None)
     (snd (draw floor mesh_example)))) =
     [\<lparr>conn_a = 61, conn_b = 146\<rparr>, \<lparr>conn_a = 146, conn_b = 91\<rparr>,
      \<lparr>conn_a = 263, conn_b = 249\<rparr>, \<lparr>conn_a = 33, conn_b = 7\<rparr>]"
proof -
  have "reachable (replay :: unit \<Rightarrow> real face list option \<Rightarrow> _) id floor vendor_example mesh_example"
    unfolding mesh_example_def by (rule r_init)
  then have r: "reachable (replay :: unit \<Rightarrow> real face list option \<Rightarrow> _) id floor vendor_example
     (snd (call replay id (Some None) (snd (draw floor mesh_example))))"
    by (intro r_call r_draw)
  from connection_tables_constant [OF r] r show ?thesis
    by (simp add: vendor_example_def FaceMeshConnection_def)
qed



text \<open>
  C3. On a frame for which the detector reports no face (its list of faces is absent or
  empty), \<^verbatim>\<open>detect\<close> raises nothing, sets the detected count to \<open>-1\<close>, and leaves the
  shared store all zero: both arrays, every face up to \<^verbatim>\<open>max_num_faces\<close>, all 478
  landmarks. The store is assumed to have its configured shape, as it has in every
  reachable state (\<open>reachable_inv\<close>).
\<close>

theorem detect_no_face_zeroes_store:
  assumes "shapes_ok s"
    and "fst (process (face_mesh s) fr) = None \<or> fst (process (face_mesh s) fr) = Some []"
  shows "fst (detect process f32 (Some fr) s) = None \<and>
     detected (snd (detect process f32 (Some fr) s)) = - 1 \<and>
     s_face_mesh (ctx (snd (detect process f32 (Some fr) s))) =
       zeros_nddict (max_num_faces (config s)) 478"
proof -
  from assms(1)
  have "map length (pxnorm (s_face_mesh (ctx s))) = replicate (max_num_faces (config s)) 478"
    "map length (px (s_face_mesh (ctx s))) = replicate (max_num_faces (config s)) 478"
    by (simp_all add: shapes_ok_def)
  then have "state_fill (s_face_mesh (ctx s)) 0 = zeros_nddict (max_num_faces (config s)) 478"
    by (simp add: state_fill_def zeros_nddict_def np_zeros_def fill_in_shape)
  with detect_no_face [of process s fr f32] assms(2) show ?thesis
    by (simp add: no_face_def)
qed

theorem detect_no_face_zeroes_store_witness:
  "shapes_ok mesh_one_face \<and>
   fst (replay (face_mesh mesh_one_face) (None :: real face list option)) = None \<and>
   fst (detect replay id (Some None) mesh_one_face) = None \<and>
   detected (snd (detect replay id (Some None) mesh_one_face)) = - 1 \<and>
   s_face_mesh (ctx (snd (detect replay id (Some None) mesh_one_face))) = zeros_nddict 1 478"
proof -
  have p: "fst (replay (face_mesh mesh_one_face) (None :: real face list option)) = None
           \<or> fst (replay (face_mesh mesh_one_face) (None :: real face list option)) = Some []"
    by (simp add: replay_def)
  from detect_no_face_zeroes_store [of mesh_one_face replay "None :: real face list option" id]
    mesh_one_face_shapes_ok p
  show ?thesis by (simp add: mesh_one_face_max_faces replay_def)
qed

text \<open>
  C5, amended. After a detection that returned without an exception, the pixel-space
  entry of the shared store for face \<open>i\<close> and landmark \<open>j\<close> of the detector's result is the
  pair of \<open>ctx.x * (1 - lm.x)\<close> and \<open>ctx.y * (1 - lm.y)\<close> for that landmark, each converted
  to \<^verbatim>\<open>float32\<close> (the parameter \<open>f32\<close>) as it is stored.

  Without the conversion the equality fails: for a frame 640 wide and \<open>lm.x\<close> the
  single-precision number nearest to 0.3, \<open>640 * (1 - lm.x)\<close> is \<open>58720255 / 131072\<close>, a little
  below 448, and the store holds 448; the closed theorem after the example below
  computes that case.
\<close>

theorem detect_pixel_coordinates:
  assumes "detect process f32 (Some fr) s = (None, s')"
    and "fst (process (face_mesh s) fr) = Some faces"
    and "i < length faces" and "j < length (faces ! i)"
  shows "i < length (px (s_face_mesh (ctx s'))) \<and> j < length (px (s_face_mesh (ctx s')) ! i) \<and>
     px (s_face_mesh (ctx s')) ! i ! j =
       (f32 (ctx_x (ctx s) * (1 - lm_x (faces ! i ! j))),
        f32 (ctx_y (ctx s) * (1 - lm_y (faces ! i ! j))))"
proof -
  from assms(3) have ne: "faces \<noteq> []" by auto
  from detect_okD [OF assms(1,2) ne] obtain np' where
    w: "write_faces f32 (ctx_x (ctx s)) (ctx_y (ctx s)) 0 faces (face_mesh_np s) = (None, np')"
    and eq: "s' = s\<lparr>face_mesh := snd (process (face_mesh s) fr), results := Some (Some faces),
             face_mesh_np := np',
             ctx := (ctx s)\<lparr>s_face_mesh := set_from_nddict (s_face_mesh (ctx s)) np'\<rparr>,
             detected := int (length faces)\<rparr>" .
  from eq have s': "px (s_face_mesh (ctx s')) = px np'"
    by (simp add: set_from_nddict_def)
  from write_faces_values [OF w assms(3,4)] s' show ?thesis
    by (simp add: px_of_def)
qed

theorem detect_pixel_coordinates_witness:
  "detect replay np_float32 (Some (Some [[lm_near_03]])) mesh_example = (None, mesh_rounded) \<and>
   fst (replay (face_mesh mesh_example) (Some [[lm_near_03]])) = Some [[lm_near_03]] \<and>
   px (s_face_mesh (ctx mesh_rounded)) ! 0 ! 0 =
     (np_float32 (58720255 / 131072), np_float32 240) \<and>
   (np_float32 (58720255 / 131072), np_float32 240) = (448, 240)"
proof -
  have p: "fst (replay (face_mesh mesh_example) (Some [[lm_near_03]])) = Some [[lm_near_03]]"
    by (simp add: replay_def)
  have "0 < length [[lm_near_03]]" "0 < length ([[lm_near_03]] ! 0)" by simp_all
  from detect_pixel_coordinates [OF mesh_rounded_ok p this]
  have "px (s_face_mesh (ctx mesh_rounded)) ! 0 ! 0 =
     (np_float32 (ctx_x (ctx mesh_example) * (1 - lm_x lm_near_03)),
      np_float32 (ctx_y (ctx mesh_example) * (1 - lm_y lm_near_03)))"
    by simp
  then have "px (s_face_mesh (ctx mesh_rounded)) ! 0 ! 0 =
     (np_float32 (58720255 / 131072), np_float32 240)"
    unfolding px_near_03 .
  with mesh_rounded_ok p show ?thesis by (simp add: np_float32_448 np_float32_240)
qed

theorem detect_float32_rounding_counterexample:
  "detect replay np_float32 (Some (Some [[lm_near_03]])) mesh_example = (None, mesh_rounded) \<and>
   px (s_face_mesh (ctx mesh_rounded)) ! 0 ! 0 = (448, 240) \<and>
   (ctx_x (ctx mesh_example) * (1 - lm_x lm_near_03),
    ctx_y (ctx mesh_example) * (1 - lm_y lm_near_03)) = (58720255 / 131072, 240) \<and>
   px (s_face_mesh (ctx mesh_rounded)) ! 0 ! 0 \<noteq>
     (ctx_x (ctx mesh_example) * (1 - lm_x lm_near_03),
      ctx_y (ctx mesh_example) * (1 - lm_y lm_near_03))"
proof -
  have p: "fst (replay (face_mesh mesh_example) (Some [[lm_near_03]])) = Some [[lm_near_03]]"
    by (simp add: replay_def)
  have ne: "[[lm_near_03]] \<noteq> []" by simp
  from detect_okD [OF mesh_rounded_ok p ne] obtain np' where
    w: "write_faces np_float32 (ctx_x (ctx mesh_example)) (ctx_y (ctx mesh_example)) 0
          [[lm_near_03]] (face_mesh_np mesh_example) = (None, np')"
    and eq: "mesh_rounded = mesh_example\<lparr>face_mesh := snd (replay (face_mesh mesh_example)
                (Some [[lm_near_03]])),
             results := Some (Some [[lm_near_03]]), face_mesh_np := np',
             ctx := (ctx mesh_example)\<lparr>s_face_mesh :=
                set_from_nddict (s_face_mesh (ctx mesh_example)) np'\<rparr>,
             detected := int (length [[lm_near_03]])\<rparr>" .
  have s': "px (s_face_mesh (ctx mesh_rounded)) = px np'"
    by (subst eq) (simp add: set_from_nddict_def)
  have "0 < length [[lm_near_03]]" "0 < length ([[lm_near_03]] ! 0)" by simp_all
  from write_faces_values [OF w this]
  have "px np' ! 0 ! 0 =
      px_of np_float32 (ctx_x (ctx mesh_example)) (ctx_y (ctx mesh_example)) lm_near_03"
    by simp
  with s' have v: "px (s_face_mesh (ctx mesh_rounded)) ! 0 ! 0 = (448, 240)"
    by (simp add: px_of_near_03)
  have "(448::real) \<noteq> 58720255 / 131072" by simp
  with v mesh_rounded_ok show ?thesis by (simp add: px_near_03)
qed

text \<open>
  C9. If what the detector reports for the frame does not depend on the detector's own
  state, then running \<^verbatim>\<open>detect\<close> a second time on the same frame raises what the first
  run raised and leaves the shared store and the detected count as the first run left
  them.
\<close>

theorem detect_idempotent:
  assumes "\<forall>fr m m'. frame = Some fr \<longrightarrow> fst (process m fr) = fst (process m' fr)"
  shows "fst (detect process f32 frame (snd (detect process f32 frame s))) =
       fst (detect process f32 frame s) \<and>
     s_face_mesh (ctx (snd (detect process f32 frame (snd (detect process f32 frame s))))) =
       s_face_mesh (ctx (snd (detect process f32 frame s))) \<and>
     detected (snd (detect process f32 frame (snd (detect process f32 frame s)))) =
       detected (snd (detect process f32 frame s))"
proof (cases rule: detect_cases [of frame process f32 s])
  case null
  then show ?thesis by simp
next
  case (no_face fr)
  let ?s1 = "snd (detect process f32 frame s)"
  from no_face(1) assms have "fst (process (face_mesh ?s1) fr) = fst (process (face_mesh s) fr)"
    by blast
  with no_face(2)
  have "fst (process (face_mesh ?s1) fr) = None \<or> fst (process (face_mesh ?s1) fr) = Some []"
    by simp
  from detect_no_face [of process ?s1 fr f32] this no_face(1)
  have "detect process f32 frame ?s1 =
    (None, no_face (?s1\<lparr>face_mesh := snd (process (face_mesh ?s1) fr),
                         results := Some (fst (process (face_mesh ?s1) fr))\<rparr>))"
    by simp
  with no_face(3) show ?thesis
    by (simp add: no_face_def state_fill_def comp_def)
next
  case (err fr faces e np')
  let ?s1 = "snd (detect process f32 frame s)"
  from err(1) assms have "fst (process (face_mesh ?s1) fr) = fst (process (face_mesh s) fr)"
    by blast
  with err(2) have p: "fst (process (face_mesh ?s1) fr) = Some faces" by simp
  from err(5) have f: "face_mesh_np ?s1 = np'" "ctx ?s1 = ctx s" "detected ?s1 = detected s"
    by simp_all
  from write_faces_shape [OF err(4)]
  have "fst (write_faces f32 (ctx_x (ctx s)) (ctx_y (ctx s)) 0 faces np') =
        fst (write_faces f32 (ctx_x (ctx s)) (ctx_y (ctx s)) 0 faces (face_mesh_np s))"
    by (intro write_faces_same_shape) simp_all
  with err(4) obtain np2 where
    "write_faces f32 (ctx_x (ctx ?s1)) (ctx_y (ctx ?s1)) 0 faces (face_mesh_np ?s1) = (Some e, np2)"
    unfolding f by (cases "write_faces f32 (ctx_x (ctx s)) (ctx_y (ctx s)) 0 faces np'") simp
  from detect_faces_err [of process ?s1 fr faces f32 e np2] p err(3) this err(1)
  have "detect process f32 frame ?s1 =
    (Some e, ?s1\<lparr>face_mesh := snd (process (face_mesh ?s1) fr), results := Some (Some faces),
                  face_mesh_np := np2\<rparr>)"
    by simp
  with err(5) show ?thesis by simp
next
  case (ok fr faces np')
  let ?s1 = "snd (detect process f32 frame s)"
  from ok(1) assms have "fst (process (face_mesh ?s1) fr) = fst (process (face_mesh s) fr)"
    by blast
  with ok(2) have p: "fst (process (face_mesh ?s1) fr) = Some faces" by simp
  from ok(5) have f: "face_mesh_np ?s1 = np'" "ctx_x (ctx ?s1) = ctx_x (ctx s)"
    "ctx_y (ctx ?s1) = ctx_y (ctx s)" "detected ?s1 = int (length faces)"
    "s_face_mesh (ctx ?s1) = set_from_nddict (s_face_mesh (ctx s)) np'"
    by simp_all
  from write_faces_idem [OF ok(4)] f
  have "write_faces f32 (ctx_x (ctx ?s1)) (ctx_y (ctx ?s1)) 0 faces (face_mesh_np ?s1) = (None, np')"
    by simp
  from detect_faces_ok [of process ?s1 fr faces f32 np'] p ok(3) this ok(1)
  have "detect process f32 frame ?s1 =
    (None, ?s1\<lparr>face_mesh := snd (process (face_mesh ?s1) fr), results := Some (Some faces),
             face_mesh_np := np',
             ctx := (ctx ?s1)\<lparr>s_face_mesh := set_from_nddict (s_face_mesh (ctx ?s1)) np'\<rparr>,
             detected := int (length faces)\<rparr>)"
    by simp
  with ok(5) f show ?thesis by (simp add: set_from_nddict_def)
qed

theorem detect_idempotent_witness:
  "fst (detect replay id (Some (Some [[lm_example]])) mesh_one_face) = None \<and>
   s_face_mesh (ctx (snd (detect replay id (Some (Some [[lm_example]])) mesh_one_face))) =
     s_face_mesh (ctx mesh_one_face) \<and>
   detected (snd (detect replay id (Some (Some [[lm_example]])) mesh_one_face)) = 1"
proof -
  have d: "\<forall>fr m m'. Some (Some [[lm_example]]) = Some fr \<longrightarrow>
             fst (replay (m::unit) fr) = fst (replay m' fr)"
    by (simp add: replay_def)
  from detect_idempotent [of "Some (Some [[lm_example]])" replay id mesh_example, OF d,
      folded mesh_one_face_def]
    mesh_one_face_ok
  show ?thesis by simp
qed

text \<open>
  C10. Two detections in a row, both returning without an exception, the second
  reporting at least one face and fewer faces than the first: for every face index \<open>i\<close>
  from the second count up to the first, row \<open>i\<close> of both arrays of the store is after the
  second detection what it was after the first, that is, the values written for face
  \<open>i\<close> of the first result.
\<close>

theorem detect_keeps_stale_faces:
  assumes "detect process f32 (Some fr1) s = (None, s1)"
    and "fst (process (face_mesh s) fr1) = Some faces1"
    and "detect process f32 (Some fr2) s1 = (None, s2)"
    and "fst (process (face_mesh s1) fr2) = Some faces2" and "faces2 \<noteq> []"
    and "length faces2 \<le> i" and "i < length faces1"
  shows "pxnorm (s_face_mesh (ctx s2)) ! i = pxnorm (s_face_mesh (ctx s1)) ! i \<and>
     px (s_face_mesh (ctx s2)) ! i = px (s_face_mesh (ctx s1)) ! i \<and>
     (\<forall>j<length (faces1 ! i).
        pxnorm (s_face_mesh (ctx s2)) ! i ! j = pxnorm_of f32 (faces1 ! i ! j) \<and>
        px (s_face_mesh (ctx s2)) ! i ! j =
          px_of f32 (ctx_x (ctx s)) (ctx_y (ctx s)) (faces1 ! i ! j))"
proof -
  from assms(7) have ne: "faces1 \<noteq> []" by auto
  from detect_okD [OF assms(1,2) ne] obtain np1 where
    w1: "write_faces f32 (ctx_x (ctx s)) (ctx_y (ctx s)) 0 faces1 (face_mesh_np s) = (None, np1)"
    and eq1: "s1 = s\<lparr>face_mesh := snd (process (face_mesh s) fr1), results := Some (Some faces1),
             face_mesh_np := np1,
             ctx := (ctx s)\<lparr>s_face_mesh := set_from_nddict (s_face_mesh (ctx s)) np1\<rparr>,
             detected := int (length faces1)\<rparr>" .
  from eq1 have s1: "pxnorm (s_face_mesh (ctx s1)) = pxnorm np1"
    "px (s_face_mesh (ctx s1)) = px np1" "face_mesh_np s1 = np1"
    by (simp_all add: set_from_nddict_def)
  from detect_okD [OF assms(3,4,5)] obtain np2 where
    w2: "write_faces f32 (ctx_x (ctx s1)) (ctx_y (ctx s1)) 0 faces2 (face_mesh_np s1) = (None, np2)"
    and eq2: "s2 = s1\<lparr>face_mesh := snd (process (face_mesh s1) fr2), results := Some (Some faces2),
             face_mesh_np := np2,
             ctx := (ctx s1)\<lparr>s_face_mesh := set_from_nddict (s_face_mesh (ctx s1)) np2\<rparr>,
             detected := int (length faces2)\<rparr>" .
  from eq2 have s2: "pxnorm (s_face_mesh (ctx s2)) = pxnorm np2"
    "px (s_face_mesh (ctx s2)) = px np2"
    by (simp_all add: set_from_nddict_def)
  from write_faces_frame [OF w2, of i] assms(6) s1(3)
  have rows: "pxnorm np2 ! i = pxnorm np1 ! i" "px np2 ! i = px np1 ! i"
    by simp_all
  have "pxnorm np1 ! i ! j = pxnorm_of f32 (faces1 ! i ! j) \<and>
        px np1 ! i ! j = px_of f32 (ctx_x (ctx s)) (ctx_y (ctx s)) (faces1 ! i ! j)"
    if "j < length (faces1 ! i)" for j
    using write_faces_values [OF w1 assms(7) that] by simp
  with rows s1 s2 show ?thesis by simp
qed

theorem detect_keeps_stale_faces_witness:
  "detect replay id (Some (Some [[lm_example], [lm_example]])) mesh_two = (None, mesh_two_faces) \<and>
   detect replay id (Some (Some [[lm_other]])) mesh_two_faces =
     (None, snd (detect replay id (Some (Some [[lm_other]])) mesh_two_faces)) \<and>
   pxnorm (s_face_mesh (ctx (snd (detect replay id (Some (Some [[lm_other]])) mesh_two_faces))))
       ! 1 ! 0 = (3 / 4, 1 / 2, 1) \<and>
   px (s_face_mesh (ctx (snd (detect replay id (Some (Some [[lm_other]])) mesh_two_faces))))
       ! 1 ! 0 = (480, 240)"
proof -
  have p1: "fst (replay (face_mesh mesh_two) (Some [[lm_example], [lm_example]]))
              = Some [[lm_example], [lm_example]]"
    and p2: "fst (replay (face_mesh mesh_two_faces) (Some [[lm_other]])) = Some [[lm_other]]"
    by (simp_all add: replay_def)
  have d2: "detect replay id (Some (Some [[lm_other]])) mesh_two_faces =
     (None, snd (detect replay id (Some (Some [[lm_other]])) mesh_two_faces))"
    using replay_detect_ok(1) [OF mesh_two_faces_shapes_ok, of "[[lm_other]]" id]
    by (simp add: mesh_two_faces_max_faces)
  have "[[lm_other]] \<noteq> []" "length [[lm_other]] \<le> 1"
    "1 < length [[lm_example], [lm_example]]"
    by simp_all
  note t = detect_keeps_stale_faces [OF mesh_two_faces_ok(1) p1 d2 p2 this]
  from t [THEN conjunct2, THEN conjunct2, rule_format, of 0]
  have "pxnorm (s_face_mesh (ctx (snd (detect replay id (Some (Some [[lm_other]])) mesh_two_faces))))
       ! 1 ! 0 = pxnorm_of id lm_example \<and>
   px (s_face_mesh (ctx (snd (detect replay id (Some (Some [[lm_other]])) mesh_two_faces))))
       ! 1 ! 0 = px_of id 640 480 lm_example"
    by (simp add: mesh_two_dims)
  then have "pxnorm (s_face_mesh (ctx (snd (detect replay id (Some (Some [[lm_other]])) mesh_two_faces))))
       ! 1 ! 0 = (3 / 4, 1 / 2, 1) \<and>
   px (s_face_mesh (ctx (snd (detect replay id (Some (Some [[lm_other]])) mesh_two_faces))))
       ! 1 ! 0 = (480, 240)"
    by (simp add: pxnorm_of_def px_of_def lm_example_def)
  with mesh_two_faces_ok(1) d2 show ?thesis by blast
qed

text \<open>
  C4, amended. On a frame for which the detector reports \<open>K\<close> faces, with
  \<open>1 \<le> K \<le> max_num_faces\<close> and every face of exactly 478 landmarks, \<^verbatim>\<open>detect\<close> raises
  nothing and sets the detected count to \<open>K\<close>; afterwards each array of the store is the
  \<open>K\<close> rows of values computed from the reported landmarks, \<open>K * 478\<close> entries, followed
  by the rows from \<open>K\<close> on of the instance's own array as they were before the call. The
  arrays are assumed to have their configured shape, as in every reachable state.

  As the claim is stated, for any reported faces, it fails: a detector that reports 468
  landmarks for a face, as the vendor's does unless \<^verbatim>\<open>refine_landmarks\<close> is set, has 468
  entries of the row written and the other ten left as they were; the closed theorem
  after the example below computes that case.
\<close>

theorem detect_writes_all_landmarks:
  assumes "shapes_ok s" and "fst (process (face_mesh s) fr) = Some faces" and "faces \<noteq> []"
    and "length faces \<le> max_num_faces (config s)" and "\<forall>face\<in>set faces. length face = 478"
  shows "fst (detect process f32 (Some fr) s) = None \<and>
     detected (snd (detect process f32 (Some fr) s)) = int (length faces) \<and>
     pxnorm (s_face_mesh (ctx (snd (detect process f32 (Some fr) s)))) =
       map (map (pxnorm_of f32)) faces @ drop (length faces) (pxnorm (face_mesh_np s)) \<and>
     px (s_face_mesh (ctx (snd (detect process f32 (Some fr) s)))) =
       map (map (px_of f32 (ctx_x (ctx s)) (ctx_y (ctx s)))) faces
         @ drop (length faces) (px (face_mesh_np s)) \<and>
     length (concat (map (map (pxnorm_of f32)) faces)) = length faces * 478 \<and>
     length (concat (map (map (px_of f32 (ctx_x (ctx s)) (ctx_y (ctx s)))) faces))
       = length faces * 478"
proof -
  have full: "\<And>q. q < length faces \<Longrightarrow> length (faces ! q) = 478"
    using assms(5) by simp
  then have le: "\<And>q. q < length faces \<Longrightarrow> length (faces ! q) \<le> 478"
    by simp
  obtain np' where
    w: "write_faces f32 (ctx_x (ctx s)) (ctx_y (ctx s)) 0 faces (face_mesh_np s) = (None, np')"
    and d: "detect process f32 (Some fr) s =
       (None, s\<lparr>face_mesh := snd (process (face_mesh s) fr), results := Some (Some faces),
                face_mesh_np := np',
                ctx := (ctx s)\<lparr>s_face_mesh := set_from_nddict (s_face_mesh (ctx s)) np'\<rparr>,
                detected := int (length faces)\<rparr>)"
    by (rule detect_succeeds [of s process fr faces f32, OF assms(1,2,3,4) le])
  from assms(1)
  have sh: "map length (pxnorm (face_mesh_np s)) = replicate (max_num_faces (config s)) 478"
    "map length (px (face_mesh_np s)) = replicate (max_num_faces (config s)) 478"
    by (simp_all add: shapes_ok_def)
  note rows = write_faces_full [OF w sh assms(4) full]
  have "length (concat (map (map (pxnorm_of f32)) faces)) = length faces * 478"
    "length (concat (map (map (px_of f32 (ctx_x (ctx s)) (ctx_y (ctx s)))) faces))
       = length faces * 478"
    using assms(5)
      length_concat_rows [of "map (map (pxnorm_of f32)) faces" 478]
      length_concat_rows [of "map (map (px_of f32 (ctx_x (ctx s)) (ctx_y (ctx s)))) faces" 478]
    by simp_all
  with d rows show ?thesis by (simp add: set_from_nddict_def)
qed

theorem detect_writes_all_landmarks_witness:
  "shapes_ok mesh_example \<and>
   fst (replay (face_mesh mesh_example) (Some [replicate 478 lm_example]))
     = Some [replicate 478 lm_example] \<and>
   fst (detect replay id (Some (Some [replicate 478 lm_example])) mesh_example) = None \<and>
   detected (snd (detect replay id (Some (Some [replicate 478 lm_example])) mesh_example)) = 1 \<and>
   pxnorm (s_face_mesh (ctx (snd (detect replay id (Some (Some [replicate 478 lm_example]))
      mesh_example)))) = [replicate 478 (3 / 4, 1 / 2, 1)] \<and>
   px (s_face_mesh (ctx (snd (detect replay id (Some (Some [replicate 478 lm_example]))
      mesh_example)))) = [replicate 478 (480, 240)]"
proof -
  have p: "fst (replay (face_mesh mesh_example) (Some [replicate 478 lm_example]))
     = Some [replicate 478 lm_example]"
    by (simp add: replay_def)
  have h: "[replicate 478 lm_example] \<noteq> []"
    "length [replicate 478 lm_example] \<le> max_num_faces (config mesh_example)"
    "\<forall>face\<in>set [replicate 478 lm_example]. length face = 478"
    by (simp_all add: mesh_example_max_faces)
  from detect_writes_all_landmarks
    [of mesh_example replay "Some [replicate 478 lm_example]" "[replicate 478 lm_example]" id,
     OF mesh_example_shapes_ok p h]
    mesh_example_shapes_ok p
  show ?thesis
    by (simp add: mesh_example_np mesh_example_dims zeros_nddict_def np_zeros_def
        pxnorm_of_def px_of_def lm_example_def)
qed

theorem detect_468_landmarks_counterexample:
  "fst (replay (face_mesh mesh_example) (Some [replicate 468 lm_example]))
     = Some [replicate 468 lm_example] \<and>
   length [replicate 468 lm_example] \<le> max_num_faces (config mesh_example) \<and>
   fst (detect replay id (Some (Some [replicate 468 lm_example])) mesh_example) = None \<and>
   detected (snd (detect replay id (Some (Some [replicate 468 lm_example])) mesh_example)) = 1 \<and>
   pxnorm (s_face_mesh (ctx (snd (detect replay id (Some (Some [replicate 468 lm_example]))
      mesh_example)))) = [replicate 468 (3 / 4, 1 / 2, 1) @ replicate 10 (0, 0, 0)] \<and>
   px (s_face_mesh (ctx (snd (detect replay id (Some (Some [replicate 468 lm_example]))
      mesh_example)))) = [replicate 468 (480, 240) @ replicate 10 (0, 0)]"
proof -
  let ?faces = "[replicate 468 lm_example]"
  have p: "fst (replay (face_mesh mesh_example) (Some ?faces)) = Some ?faces"
    by (simp add: replay_def)
  have h: "?faces \<noteq> []" "length ?faces \<le> max_num_faces (config mesh_example)"
    by (simp_all add: mesh_example_max_faces)
  have le: "\<And>q. q < length ?faces \<Longrightarrow> length (?faces ! q) \<le> 478" by simp
  obtain np' where
    w: "write_faces id (ctx_x (ctx mesh_example)) (ctx_y (ctx mesh_example)) 0 ?faces
          (face_mesh_np mesh_example) = (None, np')"
    and d: "detect replay id (Some (Some ?faces)) mesh_example =
       (None, mesh_example\<lparr>face_mesh := snd (replay (face_mesh mesh_example) (Some ?faces)),
                results := Some (Some ?faces),
                face_mesh_np := np',
                ctx := (ctx mesh_example)\<lparr>s_face_mesh :=
                   set_from_nddict (s_face_mesh (ctx mesh_example)) np'\<rparr>,
                detected := int (length ?faces)\<rparr>)"
    by (rule detect_succeeds [of mesh_example replay "Some ?faces" ?faces id,
          OF mesh_example_shapes_ok p h le])
  have in_range: "0 < length ?faces" "0 < length (pxnorm (face_mesh_np mesh_example))"
    "0 < length (px (face_mesh_np mesh_example))"
    by (simp_all add: mesh_example_np zeros_nddict_def np_zeros_def)
  note r = write_faces_row [OF w in_range]
  from write_faces_shape [OF w]
  have "length (pxnorm np') = 1" "length (px np') = 1"
    by (auto dest!: same_shapeD(1) simp: mesh_example_np zeros_nddict_def np_zeros_def)
  then have "pxnorm np' = [pxnorm np' ! 0]" "px np' = [px np' ! 0]"
    by (simp_all add: singleton_rows)
  with r have "pxnorm np' = [replicate 468 (3 / 4, 1 / 2, 1) @ replicate 10 (0, 0, 0)]"
    "px np' = [replicate 468 (480, 240) @ replicate 10 (0, 0)]"
    by (simp_all add: mesh_example_np mesh_example_dims zeros_nddict_def np_zeros_def
        pxnorm_of_def px_of_def lm_example_def)
  with d p h(2) show ?thesis by (simp add: set_from_nddict_def)
qed

text \<open>
  C1. The claim is that \<^verbatim>\<open>draw\<close> with a detected count \<open>K > 0\<close> makes \<open>K * 478\<close> circle
  calls and one line call per entry of the contours table and face. The code does not:
  on the instance built with the default arguments, after a detection of one face of 478
  landmarks, the detected count is 1, the instance has no attribute \<^verbatim>\<open>px\<close>, and \<^verbatim>\<open>draw\<close>
  ends in the missing-attribute error with the state as it was, no call made.

  Apart from that, \<^verbatim>\<open>draw_face_conns\<close> runs its connection index over \<^verbatim>\<open>n_points\<close> and not
  over \<^verbatim>\<open>n_conns\<close>: with a table shorter than 478 the index leaves the table
  (\<open>draw_face_conns_index_outside_table\<close>).
\<close>

theorem draw_after_detection_raises:
  "detected (snd (detect replay id (Some (Some [replicate 478 lm_example])) mesh_example)) = 1 \<and>
   self_px (snd (detect replay id (Some (Some [replicate 478 lm_example])) mesh_example)) = None \<and>
   draw floor (snd (detect replay id (Some (Some [replicate 478 lm_example])) mesh_example)) =
     (Some AttributeError,
      snd (detect replay id (Some (Some [replicate 478 lm_example])) mesh_example))"
proof -
  let ?s1 = "snd (detect replay id (Some (Some [replicate 478 lm_example])) mesh_example)"
  have d: "detected ?s1 = 1"
    using replay_detect_ok(2) [OF mesh_example_shapes_ok, of "[replicate 478 lm_example]" id]
    by (simp add: mesh_example_max_faces)
  have n: "self_px ?s1 = None"
    by (rule detect_no_px) (simp add: mesh_example_def init_no_px)
  have sh: "shapes_ok ?s1" by (rule detect_shapes_ok [OF mesh_example_shapes_ok])
  then have np: "0 < n_points ?s1" by (simp add: shapes_ok_def)
  have mf: "0 < max_num_faces (config ?s1)" by (simp add: detect_config mesh_example_max_faces)
  have pos: "0 < detected ?s1" using d by simp
  from draw_no_px_attribute_error [OF n pos np shapes_ok_store_nonempty [OF sh mf]] d n
  show ?thesis by simp
qed

end
